theory Spec2Isabelle
  imports Main "HOL-Library.Char_ord" "HOL-Library.List_Lexorder"
begin

section \<open>JavaScript values\<close>

text \<open>
  The values that flow through the signed structures (\<open>payload: unknown\<close>,
  \<open>result: unknown\<close>) are modelled as the JSON values plus \<open>undefined\<close>.
  An object is the list of its own enumerable properties in enumeration order; an object
  never holds one key twice (\<open>wellFormed\<close>). Numbers are the integers that print in
  decimal (epoch milliseconds are), strings have code units below 256. Functions, symbols
  and bigints are outside the model.
\<close>

datatype jsval =
    Undefined
  | Null
  | Bool bool
  | Num int
  | Str string
  | Arr "jsval list"
  | Obj "(string \<times> jsval) list"

text \<open>A byte is an 8-bit value, which is what HOL's \<open>char\<close> is.\<close>

type_synonym bytes = "char list"

fun wellFormed :: "jsval \<Rightarrow> bool" where
  "wellFormed (Arr xs) = list_all wellFormed xs"
| "wellFormed (Obj kvs) =
     (distinct (map fst kvs) \<and> list_all (\<lambda>kv. wellFormed (snd kv)) kvs)"
| "wellFormed _ = True"

section \<open>Canonical encoding (identity/serialize.ts)\<close>

subsection \<open>Property assignment on a plain object\<close>

text \<open>
  \<open>sorted[key] = v\<close> on an ordinary object: an existing own property keeps its
  place; a new array-index key (a canonical decimal below \<open>2^32 - 1\<close>) is enumerated
  among the index keys in ascending numeric order, before every other key; any other new
  key is enumerated last. The key \<open>__proto__\<close> reaches the accessor of
  \<open>Object.prototype\<close> and creates no own property.
\<close>

definition isDigit :: "char \<Rightarrow> bool" where
  "isDigit c = (CHR ''0'' \<le> c \<and> c \<le> CHR ''9'')"

definition digitVal :: "char \<Rightarrow> int" where
  "digitVal c = of_char c - 48"

definition parseDec :: "string \<Rightarrow> int" where
  "parseDec s = foldl (\<lambda>acc c. 10 * acc + digitVal c) 0 s"

definition isArrayIndex :: "string \<Rightarrow> bool" where
  "isArrayIndex s =
     (s \<noteq> [] \<and> list_all isDigit s \<and> (s = ''0'' \<or> hd s \<noteq> CHR ''0'')
      \<and> parseDec s < 4294967295)"

fun insertIndex :: "string \<Rightarrow> 'v \<Rightarrow> (string \<times> 'v) list \<Rightarrow> (string \<times> 'v) list" where
  "insertIndex k v [] = [(k, v)]"
| "insertIndex k v ((k', v') # rest) =
     (if isArrayIndex k' \<and> parseDec k' < parseDec k
      then (k', v') # insertIndex k v rest
      else (k, v) # (k', v') # rest)"

fun replaceOwn :: "string \<Rightarrow> 'v \<Rightarrow> (string \<times> 'v) list \<Rightarrow> (string \<times> 'v) list" where
  "replaceOwn k v [] = []"
| "replaceOwn k v ((k', v') # rest) =
     (if k' = k then (k, v) # rest else (k', v') # replaceOwn k v rest)"

definition setProp :: "string \<Rightarrow> 'v \<Rightarrow> (string \<times> 'v) list \<Rightarrow> (string \<times> 'v) list" where
  "setProp k v obj =
     (if k = ''__proto__'' then obj
      else if k \<in> set (map fst obj) then replaceOwn k v obj
      else if isArrayIndex k then insertIndex k v obj
      else obj @ [(k, v)])"

subsection \<open>sortKeys\<close>

text \<open>
  \<open>Object.keys(value).sort()\<close> orders the keys by code units, which on lists of
  characters is the lexicographic order; the loop assigns the properties of the fresh
  object \<open>sorted\<close> in that order, reading each value from the argument.
\<close>

function sortKeys :: "jsval \<Rightarrow> jsval" where
  "sortKeys (Arr xs) = Arr (map sortKeys xs)"
| "sortKeys (Obj kvs) =
     Obj (fold (\<lambda>key sorted.
                  case map_of kvs key of
                    Some v \<Rightarrow> setProp key (sortKeys v) sorted
                  | None \<Rightarrow> sorted)
               (sort (map fst kvs)) [])"
| "sortKeys Undefined = Undefined"
| "sortKeys Null = Null"
| "sortKeys (Bool b) = Bool b"
| "sortKeys (Num n) = Num n"
| "sortKeys (Str s) = Str s"
  by pat_completeness auto

lemma size_map_of_less:
  "map_of kvs k = Some v \<Longrightarrow> size v < Suc (size_list (size_prod (\<lambda>_. 0) size) kvs)"
  by (induction kvs) (auto split: if_splits)

termination sortKeys
proof (relation "measure size")
  show "wf (measure (size :: jsval \<Rightarrow> nat))" by simp
next
  fix xs :: "jsval list" and x
  assume "x \<in> set xs"
  then show "(x, Arr xs) \<in> measure size"
    by (induction xs) auto
next
  fix kvs :: "(string \<times> jsval) list" and key :: string and sorted :: "(string \<times> jsval) list" and v
  assume "map_of kvs key = Some v"
  then show "(v, Obj kvs) \<in> measure size"
    using size_map_of_less [of kvs key v] by simp
qed

subsection \<open>JSON.stringify and TextEncoder\<close>

text \<open>
  \<open>JSON.stringify\<close> on these values: \<open>undefined\<close> has no JSON text (the call
  returns \<open>undefined\<close>, here \<open>None\<close>); inside an array it is written
  \<open>null\<close>, and an object property holding it is left out. Strings are quoted with the
  escapes of the language standard; integers print in decimal.
\<close>

definition hexDigit :: "int \<Rightarrow> char" where
  "hexDigit n = (''0123456789abcdef'') ! nat (n mod 16)"

definition quoteChar :: "char \<Rightarrow> string" where
  "quoteChar c =
     (if c = CHR 0x08 then [CHR 0x5C, CHR ''b'']
      else if c = CHR 0x09 then [CHR 0x5C, CHR ''t'']
      else if c = CHR 0x0A then [CHR 0x5C, CHR ''n'']
      else if c = CHR 0x0C then [CHR 0x5C, CHR ''f'']
      else if c = CHR 0x0D then [CHR 0x5C, CHR ''r'']
      else if c = CHR 0x22 then [CHR 0x5C, CHR 0x22]
      else if c = CHR 0x5C then [CHR 0x5C, CHR 0x5C]
      else if (of_char c :: int) < 32
        then [CHR 0x5C] @ ''u00'' @ [hexDigit (of_char c div 16), hexDigit (of_char c)]
      else [c])"

definition quoteJSON :: "string \<Rightarrow> string" where
  "quoteJSON s = [CHR 0x22] @ concat (map quoteChar s) @ [CHR 0x22]"

function digits :: "int \<Rightarrow> string" where
  "digits n =
     (if n < 10 then [hexDigit n] else digits (n div 10) @ [hexDigit (n mod 10)])"
  by pat_completeness auto
termination
  by (relation "measure nat") auto

definition numberToString :: "int \<Rightarrow> string" where
  "numberToString n = (if n < 0 then ''-'' @ digits (- n) else digits n)"

fun commaJoin :: "string list \<Rightarrow> string" where
  "commaJoin [] = []"
| "commaJoin [s] = s"
| "commaJoin (s # rest) = s @ '','' @ commaJoin rest"

fun stringify :: "jsval \<Rightarrow> string option"
  and stringifyElements :: "jsval list \<Rightarrow> string list"
  and stringifyProperties :: "(string \<times> jsval) list \<Rightarrow> string list" where
  "stringify Undefined = None"
| "stringify Null = Some ''null''"
| "stringify (Bool b) = Some (if b then ''true'' else ''false'')"
| "stringify (Num n) = Some (numberToString n)"
| "stringify (Str s) = Some (quoteJSON s)"
| "stringify (Arr xs) = Some (''['' @ commaJoin (stringifyElements xs) @ '']'')"
| "stringify (Obj kvs) = Some (''{'' @ commaJoin (stringifyProperties kvs) @ ''}'')"
| "stringifyElements [] = []"
| "stringifyElements (x # xs) =
     (case stringify x of None \<Rightarrow> ''null'' | Some s \<Rightarrow> s) # stringifyElements xs"
| "stringifyProperties [] = []"
| "stringifyProperties ((k, v) # kvs) =
     (case stringify v of
        None \<Rightarrow> stringifyProperties kvs
      | Some s \<Rightarrow> (quoteJSON k @ '':'' @ s) # stringifyProperties kvs)"

text \<open>
  \<open>new TextEncoder().encode(json)\<close>: UTF-8, one byte below 128 and two bytes for
  the other code units of the model; \<open>encode(undefined)\<close> is the empty array.
\<close>

definition utf8Encode :: "string \<Rightarrow> bytes" where
  "utf8Encode s =
     concat (map (\<lambda>c. let n = (of_char c :: int)
                        in if n < 128 then [c]
                           else [char_of (192 + n div 64), char_of (128 + n mod 64)]) s)"

definition canonicalJson :: "jsval \<Rightarrow> string" where
  "canonicalJson object = (case stringify (sortKeys object) of None \<Rightarrow> [] | Some json \<Rightarrow> json)"

definition canonicalize :: "jsval \<Rightarrow> bytes" where
  "canonicalize object = utf8Encode (canonicalJson object)"

section \<open>Identity (identity/keys.ts)\<close>

text \<open>
  The ed25519 library is outside the repository; its functions are parameters of the
  model. \<open>ed_verify\<close> may throw, which is \<open>None\<close>; \<open>ed_hexToBytes\<close>
  returns the bytes (\<open>Inr\<close>) or throws a value of the library's (\<open>Inl\<close>).
  \<open>ed_sign\<close> is taken to return for the keys an agent holds.
\<close>

text \<open>A thrown value: an \<open>Error\<close> with its message, or anything else.\<close>

datatype thrown = ErrorObject string | OtherValue

record Ed25519 =
  ed_getPublicKey :: "bytes \<Rightarrow> bytes"
  ed_sign :: "bytes \<Rightarrow> bytes \<Rightarrow> bytes"
  ed_verify :: "bytes \<Rightarrow> bytes \<Rightarrow> bytes \<Rightarrow> bool option"
  ed_bytesToHex :: "bytes \<Rightarrow> string"
  ed_hexToBytes :: "string \<Rightarrow> thrown + bytes"

record AgentIdentity =
  publicKey :: bytes
  secretKey :: bytes

definition sign :: "Ed25519 \<Rightarrow> bytes \<Rightarrow> bytes \<Rightarrow> bytes" where
  "sign ed message sk = ed_sign ed message sk"

definition verify :: "Ed25519 \<Rightarrow> bytes \<Rightarrow> bytes \<Rightarrow> bytes \<Rightarrow> bool" where
  "verify ed sig message pk =
     (case ed_verify ed sig message pk of Some b \<Rightarrow> b | None \<Rightarrow> False)"

section \<open>Delegation (identity/delegation.ts)\<close>

record DelegationCert =
  cert_owner :: string
  cert_agent :: string
  cert_scope :: "string list"
  cert_issuedAt :: int
  cert_expiresAt :: int
  cert_signature :: string

definition certUnsigned :: "DelegationCert \<Rightarrow> jsval" where
  "certUnsigned cert =
     Obj [(''owner'', Str (cert_owner cert)),
          (''agent'', Str (cert_agent cert)),
          (''scope'', Arr (map Str (cert_scope cert))),
          (''issuedAt'', Num (cert_issuedAt cert)),
          (''expiresAt'', Num (cert_expiresAt cert))]"

definition createDelegationCert ::
  "Ed25519 \<Rightarrow> int \<Rightarrow> AgentIdentity \<Rightarrow> bytes \<Rightarrow> string list \<Rightarrow> int \<Rightarrow> DelegationCert" where
  "createDelegationCert ed now ownerIdentity agentPublicKey scope ttlMs =
     (let unsigned = \<lparr> cert_owner = ed_bytesToHex ed (publicKey ownerIdentity),
                         cert_agent = ed_bytesToHex ed agentPublicKey,
                         cert_scope = scope,
                         cert_issuedAt = now,
                         cert_expiresAt = now + ttlMs,
                         cert_signature = [] \<rparr>;
          message = canonicalize (certUnsigned unsigned);
          signature = sign ed message (secretKey ownerIdentity)
      in unsigned \<lparr> cert_signature := ed_bytesToHex ed signature \<rparr>)"

text \<open>
  \<open>verify(hexToBytes(signature), message, hexToBytes(key))\<close>: the two decodings
  stand outside the \<open>try\<close> of \<open>verify\<close>, so a string that does not decode makes
  the caller throw (\<open>Inl\<close>).
\<close>

definition verifyHex :: "Ed25519 \<Rightarrow> string \<Rightarrow> bytes \<Rightarrow> string \<Rightarrow> thrown + bool" where
  "verifyHex ed signature message key =
     (case ed_hexToBytes ed signature of
        Inl e \<Rightarrow> Inl e
      | Inr sig \<Rightarrow>
          (case ed_hexToBytes ed key of
             Inl e \<Rightarrow> Inl e
           | Inr pk \<Rightarrow> Inr (verify ed sig message pk)))"

definition verifyDelegationCert :: "Ed25519 \<Rightarrow> int \<Rightarrow> DelegationCert \<Rightarrow> thrown + bool" where
  "verifyDelegationCert ed now cert =
     (if cert_expiresAt cert \<le> now then Inr False
      else verifyHex ed (cert_signature cert) (canonicalize (certUnsigned cert)) (cert_owner cert))"

text \<open>
  \<open>a && b && c\<close> evaluates left to right and stops at the first \<open>false\<close>; the two
  verifications read the clock one after the other (\<open>nowA\<close>, then \<open>nowB\<close>).
\<close>

definition isFleetSibling ::
  "Ed25519 \<Rightarrow> int \<Rightarrow> int \<Rightarrow> DelegationCert \<Rightarrow> DelegationCert \<Rightarrow> thrown + bool" where
  "isFleetSibling ed nowA nowB certA certB =
     (case verifyDelegationCert ed nowA certA of
        Inl e \<Rightarrow> Inl e
      | Inr False \<Rightarrow> Inr False
      | Inr True \<Rightarrow>
          (case verifyDelegationCert ed nowB certB of
             Inl e \<Rightarrow> Inl e
           | Inr False \<Rightarrow> Inr False
           | Inr True \<Rightarrow> Inr (cert_owner certA = cert_owner certB)))"

section \<open>Envelope protocol (protocol/types.ts, protocol/envelope.ts)\<close>

record TaskEnvelope =
  env_taskId :: string
  env_from :: string
  env_to :: string
  env_tool :: string
  env_payload :: jsval
  env_timestamp :: int
  env_signature :: string

record TaskResponse =
  resp_taskId :: string
  resp_from :: string
  resp_result :: jsval
  resp_timestamp :: int
  resp_signature :: string

definition envelopeUnsigned :: "TaskEnvelope \<Rightarrow> jsval" where
  "envelopeUnsigned envelope =
     Obj [(''taskId'', Str (env_taskId envelope)),
          (''from'', Str (env_from envelope)),
          (''to'', Str (env_to envelope)),
          (''tool'', Str (env_tool envelope)),
          (''payload'', env_payload envelope),
          (''timestamp'', Num (env_timestamp envelope))]"

definition responseUnsigned :: "TaskResponse \<Rightarrow> jsval" where
  "responseUnsigned response =
     Obj [(''taskId'', Str (resp_taskId response)),
          (''from'', Str (resp_from response)),
          (''result'', resp_result response),
          (''timestamp'', Num (resp_timestamp response))]"

text \<open>
  \<open>crypto.randomUUID()\<close> and \<open>Date.now()\<close> are inputs of the model
  (\<open>uuid\<close>, \<open>now\<close>).
\<close>

definition createTaskEnvelope ::
  "Ed25519 \<Rightarrow> string \<Rightarrow> int \<Rightarrow> AgentIdentity \<Rightarrow> string \<Rightarrow> string \<Rightarrow> jsval \<Rightarrow> TaskEnvelope" where
  "createTaskEnvelope ed uuid now identity to tool payload =
     (let unsigned = \<lparr> env_taskId = uuid,
                         env_from = ed_bytesToHex ed (publicKey identity),
                         env_to = to,
                         env_tool = tool,
                         env_payload = payload,
                         env_timestamp = now,
                         env_signature = [] \<rparr>;
          message = canonicalize (envelopeUnsigned unsigned);
          signature = sign ed message (secretKey identity)
      in unsigned \<lparr> env_signature := ed_bytesToHex ed signature \<rparr>)"

definition verifyTaskEnvelope :: "Ed25519 \<Rightarrow> TaskEnvelope \<Rightarrow> thrown + bool" where
  "verifyTaskEnvelope ed envelope =
     verifyHex ed (env_signature envelope) (canonicalize (envelopeUnsigned envelope))
       (env_from envelope)"

definition createTaskResponse ::
  "Ed25519 \<Rightarrow> int \<Rightarrow> AgentIdentity \<Rightarrow> string \<Rightarrow> jsval \<Rightarrow> TaskResponse" where
  "createTaskResponse ed now identity taskId result =
     (let unsigned = \<lparr> resp_taskId = taskId,
                         resp_from = ed_bytesToHex ed (publicKey identity),
                         resp_result = result,
                         resp_timestamp = now,
                         resp_signature = [] \<rparr>;
          message = canonicalize (responseUnsigned unsigned);
          signature = sign ed message (secretKey identity)
      in unsigned \<lparr> resp_signature := ed_bytesToHex ed signature \<rparr>)"

definition verifyTaskResponse :: "Ed25519 \<Rightarrow> TaskResponse \<Rightarrow> thrown + bool" where
  "verifyTaskResponse ed response =
     verifyHex ed (resp_signature response) (canonicalize (responseUnsigned response))
       (resp_from response)"

section \<open>Payload validation (protocol/standard-tools.ts)\<close>

text \<open>
  \<open>Tool.parameters\<close> is read through the cast of \<open>validatePayload\<close>: an optional
  list of required keys and an optional table from property name to its optional
  \<open>type\<close>.
\<close>

record ToolParameters =
  params_required :: "string list option"
  params_properties :: "(string \<times> string option) list option"

record Tool =
  tool_name :: string
  tool_description :: string
  tool_parameters :: "ToolParameters option"

datatype validation = Valid | Invalid string

definition LLM_MESSAGE_TOOL_NAME :: string where
  "LLM_MESSAGE_TOOL_NAME = ''quokkamesh/llm-message''"

definition LLM_MESSAGE_TOOL :: Tool where
  "LLM_MESSAGE_TOOL =
     \<lparr> tool_name = LLM_MESSAGE_TOOL_NAME,
       tool_description =
         ''Free-form text message for LLM agents. Use this to send arbitrary text to another agent.'',
       tool_parameters =
         Some \<lparr> params_required = Some [''text''],
                params_properties = Some [(''text'', Some ''string'')] \<rparr> \<rparr>"

fun typeof :: "jsval \<Rightarrow> string" where
  "typeof Undefined = ''undefined''"
| "typeof Null = ''object''"
| "typeof (Bool b) = ''boolean''"
| "typeof (Num n) = ''number''"
| "typeof (Str s) = ''string''"
| "typeof (Arr xs) = ''object''"
| "typeof (Obj kvs) = ''object''"

fun isArray :: "jsval \<Rightarrow> bool" where
  "isArray (Arr xs) = True"
| "isArray _ = False"

fun ownProperties :: "jsval \<Rightarrow> (string \<times> jsval) list" where
  "ownProperties (Obj kvs) = kvs"
| "ownProperties _ = []"

text \<open>
  \<open>key in obj\<close> and \<open>obj[key]\<close> also see the members a plain object inherits
  from \<open>Object.prototype\<close>: functions, and the prototype object itself under
  \<open>__proto__\<close>.
\<close>

definition objectPrototypeKeys :: "string list" where
  "objectPrototypeKeys =
     [''constructor'', ''__defineGetter__'', ''__defineSetter__'', ''hasOwnProperty'',
      ''__lookupGetter__'', ''__lookupSetter__'', ''isPrototypeOf'', ''propertyIsEnumerable'',
      ''toString'', ''valueOf'', ''__proto__'', ''toLocaleString'']"

definition hasProperty :: "(string \<times> jsval) list \<Rightarrow> string \<Rightarrow> bool" where
  "hasProperty obj key = (key \<in> set (map fst obj) \<or> key \<in> set objectPrototypeKeys)"

definition typeofProperty :: "(string \<times> jsval) list \<Rightarrow> string \<Rightarrow> string" where
  "typeofProperty obj key =
     (case map_of obj key of
        Some val \<Rightarrow> typeof val
      | None \<Rightarrow>
          if key = ''__proto__'' then ''object''
          else if key \<in> set objectPrototypeKeys then ''function''
          else ''undefined'')"

definition isArrayProperty :: "(string \<times> jsval) list \<Rightarrow> string \<Rightarrow> bool" where
  "isArrayProperty obj key = (case map_of obj key of Some val \<Rightarrow> isArray val | None \<Rightarrow> False)"

definition notAnObject :: "jsval \<Rightarrow> bool" where
  "notAnObject payload = (payload = Null \<or> typeof payload \<noteq> ''object'' \<or> isArray payload)"

text \<open>\<open>props?.[key]?.type\<close> when it is truthy (a non-empty string).\<close>

definition declaredType :: "(string \<times> string option) list option \<Rightarrow> string \<Rightarrow> string option" where
  "declaredType props key =
     (case props of
        None \<Rightarrow> None
      | Some table \<Rightarrow>
          (case map_of table key of
             Some (Some t) \<Rightarrow> if t = [] then None else Some t
           | _ \<Rightarrow> None))"

fun checkRequired ::
  "(string \<times> string option) list option \<Rightarrow> (string \<times> jsval) list \<Rightarrow> string list \<Rightarrow> validation" where
  "checkRequired props obj [] = Valid"
| "checkRequired props obj (key # rest) =
     (if \<not> hasProperty obj key then Invalid (''Missing required field: '' @ key)
      else
        (case declaredType props key of
           None \<Rightarrow> checkRequired props obj rest
         | Some expected \<Rightarrow>
             (let actual = (if isArrayProperty obj key then ''array'' else typeofProperty obj key)
              in if expected = ''integer'' \<and> typeofProperty obj key \<noteq> ''number''
                 then Invalid (''Field '' @ key @ '' expected type integer but got '' @ actual)
                 else if expected \<noteq> ''array'' \<and> expected \<noteq> ''object'' \<and> actual \<noteq> expected
                 then Invalid (''Field '' @ key @ '' expected type '' @ expected @ '' but got '' @ actual)
                 else if (expected = ''array'' \<or> expected = ''object'') \<and> actual \<noteq> expected
                 then Invalid (''Field '' @ key @ '' expected type '' @ expected @ '' but got '' @ actual)
                 else checkRequired props obj rest)))"

definition validatePayload :: "Tool \<Rightarrow> jsval \<Rightarrow> validation" where
  "validatePayload tool payload =
     (if tool_name tool = LLM_MESSAGE_TOOL_NAME then
        (if notAnObject payload then Invalid ''Payload must be an object with a text field''
         else if typeofProperty (ownProperties payload) ''text'' \<noteq> ''string''
         then Invalid ''Payload must have a string \"text\" field''
         else Valid)
      else if notAnObject payload then Invalid ''Payload must be an object''
      else
        (case tool_parameters tool of
           None \<Rightarrow> Valid
         | Some params \<Rightarrow>
             (case params_required params of
                None \<Rightarrow> Valid
              | Some required \<Rightarrow>
                  checkRequired (params_properties params) (ownProperties payload) required)))"

section \<open>Tool registry (protocol/tools.ts)\<close>

text \<open>
  A JavaScript \<open>Map\<close> is the list of its entries in insertion order: \<open>set\<close> on a
  present key replaces the value in place, on a new key appends.
\<close>

definition mapSet :: "string \<Rightarrow> 'v \<Rightarrow> (string \<times> 'v) list \<Rightarrow> (string \<times> 'v) list" where
  "mapSet k v m = (if k \<in> set (map fst m) then replaceOwn k v m else m @ [(k, v)])"

definition mapDelete :: "string \<Rightarrow> (string \<times> 'v) list \<Rightarrow> (string \<times> 'v) list" where
  "mapDelete k m = filter (\<lambda>kv. fst kv \<noteq> k) m"

text \<open>
  A handler is asynchronous code of the application; one invocation either returns a
  value or throws.
\<close>

datatype outcome = Returns jsval | Throws thrown

record ToolEntry =
  entry_tool :: Tool
  entry_handler :: "jsval \<Rightarrow> outcome"

type_synonym ToolRegistry = "(string \<times> ToolEntry) list"

definition register :: "Tool \<Rightarrow> (jsval \<Rightarrow> outcome) \<Rightarrow> ToolRegistry \<Rightarrow> ToolRegistry" where
  "register tool handler entries =
     mapSet (tool_name tool) \<lparr> entry_tool = tool, entry_handler = handler \<rparr> entries"

definition has :: "ToolRegistry \<Rightarrow> string \<Rightarrow> bool" where
  "has entries toolName = (toolName \<in> set (map fst entries))"

definition getHandler :: "ToolRegistry \<Rightarrow> string \<Rightarrow> (jsval \<Rightarrow> outcome) option" where
  "getHandler entries toolName = map_option entry_handler (map_of entries toolName)"

definition getTool :: "ToolRegistry \<Rightarrow> string \<Rightarrow> Tool option" where
  "getTool entries toolName = map_option entry_tool (map_of entries toolName)"

definition listTools :: "ToolRegistry \<Rightarrow> Tool list" where
  "listTools entries = map (\<lambda>entry. entry_tool (snd entry)) entries"

section \<open>Agent (agent.ts)\<close>

subsection \<open>Wire messages\<close>

datatype WireMessage =
    Task TaskEnvelope
  | Response TaskResponse
  | CertExchange DelegationCert

definition envelopeJson :: "TaskEnvelope \<Rightarrow> jsval" where
  "envelopeJson envelope =
     Obj (ownProperties (envelopeUnsigned envelope)
          @ [(''signature'', Str (env_signature envelope))])"

definition responseJson :: "TaskResponse \<Rightarrow> jsval" where
  "responseJson response =
     Obj (ownProperties (responseUnsigned response)
          @ [(''signature'', Str (resp_signature response))])"

definition certJson :: "DelegationCert \<Rightarrow> jsval" where
  "certJson cert =
     Obj (ownProperties (certUnsigned cert) @ [(''signature'', Str (cert_signature cert))])"

fun wireJson :: "WireMessage \<Rightarrow> jsval" where
  "wireJson (Task envelope) =
     Obj [(''type'', Str ''task''), (''envelope'', envelopeJson envelope)]"
| "wireJson (Response response) =
     Obj [(''type'', Str ''response''), (''response'', responseJson response)]"
| "wireJson (CertExchange cert) =
     Obj [(''type'', Str ''cert-exchange''), (''cert'', certJson cert)]"

subsection \<open>State, transport and observable effects\<close>

text \<open>
  The \<open>resolve\<close> and \<open>reject\<close> callbacks of a pending request settle the promise
  that \<open>request\<close> returned; the promise and the timer are named by identifiers.
\<close>

record PendingRequest =
  pr_promise :: nat
  pr_timer :: nat

record Agent =
  identity :: AgentIdentity
  delegation :: "DelegationCert option"
  tools :: ToolRegistry
  pending :: "(string \<times> PendingRequest) list"
  peerCerts :: "(string \<times> DelegationCert) list"
  requestTimeoutMs :: int
  started :: bool

text \<open>
  The transport is outside the repository: \<open>send\<close> and \<open>stop\<close> either complete
  (\<open>None\<close>) or reject with a thrown value.
\<close>

record Transport =
  tr_send :: "string \<Rightarrow> bytes \<Rightarrow> thrown option"
  tr_stop :: "thrown option"

datatype event =
    Send string bytes
  | TransportStop
  | SetTimeout nat int
  | ClearTimeout nat
  | Resolve nat TaskResponse
  | Reject nat thrown
  | Invoke string jsval

fun isInvoke :: "event \<Rightarrow> bool" where
  "isInvoke (Invoke toolName payload) = True"
| "isInvoke _ = False"

definition registerTool :: "Tool \<Rightarrow> (jsval \<Rightarrow> outcome) \<Rightarrow> Agent \<Rightarrow> Agent" where
  "registerTool tool handler agent = agent \<lparr> tools := register tool handler (tools agent) \<rparr>"

subsection \<open>stop\<close>

text \<open>
  The loop over \<open>this.pending\<close> visits every entry of the table once and deletes the
  entry it has just rejected.
\<close>

fun rejectPending ::
  "(string \<times> PendingRequest) list \<Rightarrow> Agent \<Rightarrow> Agent \<times> event list" where
  "rejectPending [] agent = (agent, [])"
| "rejectPending ((taskId, p) # rest) agent =
     (let agent' = agent \<lparr> pending := mapDelete taskId (pending agent) \<rparr>;
          (agent'', events) = rejectPending rest agent'
      in (agent'',
          [ClearTimeout (pr_timer p), Reject (pr_promise p) (ErrorObject ''Agent stopped'')]
          @ events))"

definition stop :: "Transport \<Rightarrow> Agent \<Rightarrow> Agent \<times> event list \<times> thrown option" where
  "stop tr agent =
     (case tr_stop tr of
        Some e \<Rightarrow> (agent, [TransportStop], Some e)
      | None \<Rightarrow>
          (let (agent', events) = rejectPending (pending agent) agent
           in (agent', TransportStop # events, None)))"

subsection \<open>request\<close>

text \<open>
  \<open>request\<close> up to the point where the promise is handed to the caller; the timer
  callback and the \<open>catch\<close> callback of \<open>send\<close> run later, as steps of their own.
\<close>

definition request ::
  "Ed25519 \<Rightarrow> string \<Rightarrow> int \<Rightarrow> nat \<Rightarrow> nat \<Rightarrow> Agent \<Rightarrow> string \<Rightarrow> string \<Rightarrow> jsval
     \<Rightarrow> Agent \<times> event list" where
  "request ed uuid now promise timer agent peerId tool payload =
     (let envelope = createTaskEnvelope ed uuid now (identity agent) peerId tool payload;
          wireMsg = Task envelope;
          bytes = canonicalize (wireJson wireMsg)
      in (agent \<lparr> pending := mapSet (env_taskId envelope)
                                 \<lparr> pr_promise = promise, pr_timer = timer \<rparr> (pending agent) \<rparr>,
          [SetTimeout timer (requestTimeoutMs agent), Send peerId bytes]))"

definition requestTimedOut :: "Agent \<Rightarrow> string \<Rightarrow> nat \<Rightarrow> Agent \<times> event list" where
  "requestTimedOut agent taskId promise =
     (agent \<lparr> pending := mapDelete taskId (pending agent) \<rparr>,
      [Reject promise (ErrorObject ''Request timed out'')])"

definition requestSendFailed ::
  "Agent \<Rightarrow> string \<Rightarrow> nat \<Rightarrow> nat \<Rightarrow> thrown \<Rightarrow> Agent \<times> event list" where
  "requestSendFailed agent taskId promise timer error =
     (agent \<lparr> pending := mapDelete taskId (pending agent) \<rparr>,
      [ClearTimeout timer, Reject promise error])"

subsection \<open>Fleet check and certificate exchange\<close>

definition checkFleetSibling ::
  "Ed25519 \<Rightarrow> int \<Rightarrow> int \<Rightarrow> Agent \<Rightarrow> DelegationCert \<Rightarrow> thrown + bool" where
  "checkFleetSibling ed nowA nowB agent remoteCert =
     (case delegation agent of
        None \<Rightarrow> Inr False
      | Some own \<Rightarrow> isFleetSibling ed nowA nowB own remoteCert)"

definition handleCertExchange ::
  "Ed25519 \<Rightarrow> int \<Rightarrow> Agent \<Rightarrow> string \<Rightarrow> DelegationCert \<Rightarrow> thrown + Agent" where
  "handleCertExchange ed now agent peerId cert =
     (case verifyDelegationCert ed now cert of
        Inl e \<Rightarrow> Inl e
      | Inr True \<Rightarrow> Inr (agent \<lparr> peerCerts := mapSet peerId cert (peerCerts agent) \<rparr>)
      | Inr False \<Rightarrow> Inr agent)"

definition exchangeCert :: "Transport \<Rightarrow> Agent \<Rightarrow> string \<Rightarrow> event list \<times> thrown option" where
  "exchangeCert tr agent peerId =
     (case delegation agent of
        None \<Rightarrow> ([], Some (ErrorObject ''No delegation cert to exchange''))
      | Some cert \<Rightarrow>
          (let wireMsg = CertExchange cert;
               bytes = canonicalize (wireJson wireMsg)
           in ([Send peerId bytes], tr_send tr peerId bytes)))"

subsection \<open>handleTask\<close>

text \<open>
  \<open>clock k\<close> is the \<open>k\<close>-th reading of \<open>Date.now()\<close> during the run. The result is
  the list of effects in the order they happen, and the value the asynchronous function
  rejects with, if it does.
\<close>

definition sendResponse ::
  "Transport \<Rightarrow> string \<Rightarrow> TaskResponse \<Rightarrow> event list \<times> thrown option" where
  "sendResponse tr peerId response =
     (let wireMsg = Response response;
          bytes = canonicalize (wireJson wireMsg)
      in ([Send peerId bytes], tr_send tr peerId bytes))"

definition errorResult :: "string \<Rightarrow> jsval" where
  "errorResult message = Obj [(''error'', Str message)]"

definition errorMessage :: "thrown \<Rightarrow> string" where
  "errorMessage error = (case error of ErrorObject message \<Rightarrow> message | OtherValue \<Rightarrow> ''handler failed'')"

definition executeHandler ::
  "Ed25519 \<Rightarrow> Transport \<Rightarrow> (nat \<Rightarrow> int) \<Rightarrow> Agent \<Rightarrow> string \<Rightarrow> TaskEnvelope
     \<Rightarrow> (jsval \<Rightarrow> outcome) \<Rightarrow> event list \<times> thrown option" where
  "executeHandler ed tr clock agent peerId envelope handler =
     (case handler (env_payload envelope) of
        Returns result \<Rightarrow>
          (let response = createTaskResponse ed (clock 0) (identity agent)
                            (env_taskId envelope) result;
               (sent, failure) = sendResponse tr peerId response
           in case failure of
                None \<Rightarrow> (Invoke (env_tool envelope) (env_payload envelope) # sent, None)
              | Some error \<Rightarrow>
                  (let errorResponse = createTaskResponse ed (clock 1) (identity agent)
                                         (env_taskId envelope) (errorResult (errorMessage error));
                       (sent', failure') = sendResponse tr peerId errorResponse
                   in (Invoke (env_tool envelope) (env_payload envelope) # sent @ sent',
                       failure')))
      | Throws error \<Rightarrow>
          (let errorResponse = createTaskResponse ed (clock 0) (identity agent)
                                 (env_taskId envelope) (errorResult (errorMessage error));
               (sent, failure) = sendResponse tr peerId errorResponse
           in (Invoke (env_tool envelope) (env_payload envelope) # sent, failure)))"

definition handleTask ::
  "Ed25519 \<Rightarrow> Transport \<Rightarrow> (nat \<Rightarrow> int) \<Rightarrow> Agent \<Rightarrow> string \<Rightarrow> TaskEnvelope
     \<Rightarrow> event list \<times> thrown option" where
  "handleTask ed tr clock agent peerId envelope =
     (case verifyTaskEnvelope ed envelope of
        Inl e \<Rightarrow> ([], Some e)
      | Inr False \<Rightarrow>
          sendResponse tr peerId
            (createTaskResponse ed (clock 0) (identity agent) (env_taskId envelope)
               (errorResult ''invalid signature''))
      | Inr True \<Rightarrow>
          (case getHandler (tools agent) (env_tool envelope) of
             None \<Rightarrow>
               sendResponse tr peerId
                 (createTaskResponse ed (clock 0) (identity agent) (env_taskId envelope)
                    (errorResult (''unknown tool: '' @ env_tool envelope)))
           | Some handler \<Rightarrow>
               (case getTool (tools agent) (env_tool envelope) of
                  None \<Rightarrow> executeHandler ed tr clock agent peerId envelope handler
                | Some tool \<Rightarrow>
                    (case validatePayload tool (env_payload envelope) of
                       Invalid error \<Rightarrow>
                         sendResponse tr peerId
                           (createTaskResponse ed (clock 0) (identity agent)
                              (env_taskId envelope) (errorResult error))
                     | Valid \<Rightarrow> executeHandler ed tr clock agent peerId envelope handler))))"

subsection \<open>handleResponse\<close>

definition handleResponse ::
  "Ed25519 \<Rightarrow> Agent \<Rightarrow> TaskResponse \<Rightarrow> Agent \<times> event list \<times> thrown option" where
  "handleResponse ed agent response =
     (case map_of (pending agent) (resp_taskId response) of
        None \<Rightarrow> (agent, [], None)
      | Some p \<Rightarrow>
          (let agent' = agent \<lparr> pending := mapDelete (resp_taskId response) (pending agent) \<rparr>;
               cleared = [ClearTimeout (pr_timer p)]
           in case verifyTaskResponse ed response of
                Inl e \<Rightarrow> (agent', cleared, Some e)
              | Inr False \<Rightarrow>
                  (agent',
                   cleared @ [Reject (pr_promise p) (ErrorObject ''Invalid task response signature'')],
                   None)
              | Inr True \<Rightarrow> (agent', cleared @ [Resolve (pr_promise p) response], None)))"

section \<open>Notions the properties are stated with\<close>

subsection \<open>Structural equality\<close>

text \<open>
  Two values are structurally equal when they are the same scalar, arrays of the same
  length with structurally equal elements, or objects with the same set of keys whose
  values under each key are structurally equal; the order of the keys plays no role.
\<close>

function (sequential) structEq :: "jsval \<Rightarrow> jsval \<Rightarrow> bool" where
  "structEq (Arr xs) (Arr ys) = list_all2 structEq xs ys"
| "structEq (Obj a) (Obj b) =
     (set (map fst a) = set (map fst b)
      \<and> list_all (\<lambda>kv. case map_of b (fst kv) of
                         Some w \<Rightarrow> structEq (snd kv) w
                       | None \<Rightarrow> False) a)"
| "structEq Undefined Undefined = True"
| "structEq Null Null = True"
| "structEq (Bool b) (Bool c) = (b = c)"
| "structEq (Num n) (Num m) = (n = m)"
| "structEq (Str s) (Str t) = (s = t)"
| "structEq _ _ = False"
  by pat_completeness auto
termination
  apply (relation "measure (\<lambda>(v, w). size v)")
    apply simp
  subgoal for xs ys x y by (induction xs) auto
  subgoal for a b kv w by (induction a) auto
  done

subsection \<open>What is assumed of the library\<close>

text \<open>
  The contract of the signature library and of its hexadecimal functions: a signature
  made with a secret key verifies under the public key of that secret key, and the text
  written by \<open>bytesToHex\<close> is read back by \<open>hexToBytes\<close>. A key pair holds the
  public key of its secret key.
\<close>

definition signatureVerifies :: "Ed25519 \<Rightarrow> bool" where
  "signatureVerifies ed =
     (\<forall>m sk. ed_verify ed (ed_sign ed m sk) m (ed_getPublicKey ed sk) = Some True)"

definition hexRoundTrip :: "Ed25519 \<Rightarrow> bool" where
  "hexRoundTrip ed = (\<forall>bs. ed_hexToBytes ed (ed_bytesToHex ed bs) = Inr bs)"

definition keyPair :: "Ed25519 \<Rightarrow> AgentIdentity \<Rightarrow> bool" where
  "keyPair ed keys = (publicKey keys = ed_getPublicKey ed (secretKey keys))"

subsection \<open>What follows a value in a JSON text\<close>

text \<open>
  Inside a JSON text a value is followed by a comma, a closing bracket or a closing
  brace, or by nothing.
\<close>

definition delimited :: "string \<Rightarrow> bool" where
  "delimited r = (r = [] \<or> hd r \<in> {CHR '','', CHR '']'', CHR ''}''})"

subsection \<open>An executable instance of the library\<close>

text \<open>
  To run the model on concrete inputs the parameters are instantiated: hexadecimal
  text written in lower case and read back in either case, as the library's
  \<open>bytesToHex\<close> and \<open>hexToBytes\<close> do, and a one-byte key that signs a message
  by standing in front of it.
\<close>

definition hexValue :: "char \<Rightarrow> int option" where
  "hexValue c =
     (let n = (of_char c :: int)
      in if 48 \<le> n \<and> n \<le> 57 then Some (n - 48)
         else if 65 \<le> n \<and> n \<le> 70 then Some (n - 55)
         else if 97 \<le> n \<and> n \<le> 102 then Some (n - 87)
         else None)"

fun hexDecode :: "string \<Rightarrow> bytes option" where
  "hexDecode [] = Some []"
| "hexDecode [c] = None"
| "hexDecode (c1 # c2 # rest) =
     (case hexValue c1 of
        None \<Rightarrow> None
      | Some h \<Rightarrow>
          (case hexValue c2 of
             None \<Rightarrow> None
           | Some l \<Rightarrow>
               (case hexDecode rest of
                  None \<Rightarrow> None
                | Some bs \<Rightarrow> Some (char_of (16 * h + l) # bs))))"

definition hexEncode :: "bytes \<Rightarrow> string" where
  "hexEncode bs =
     concat (map (\<lambda>b. [hexDigit ((of_char b :: int) div 16), hexDigit (of_char b)]) bs)"

definition keyByte :: "bytes \<Rightarrow> char" where
  "keyByte sk = (case sk of [] \<Rightarrow> CHR 0x00 | k # rest \<Rightarrow> k)"

definition testEd :: Ed25519 where
  "testEd =
     \<lparr> ed_getPublicKey = (\<lambda>sk. [keyByte sk]),
       ed_sign = (\<lambda>m sk. keyByte sk # m),
       ed_verify = (\<lambda>sig m pk. case pk of [k] \<Rightarrow> Some (sig = k # m) | _ \<Rightarrow> None),
       ed_bytesToHex = hexEncode,
       ed_hexToBytes = (\<lambda>s. case hexDecode s of
                               None \<Rightarrow> Inl (ErrorObject ''hex invalid'')
                             | Some bs \<Rightarrow> Inr bs) \<rparr>"

definition testIdentity :: AgentIdentity where
  "testIdentity = \<lparr> publicKey = ''k'', secretKey = ''k'' \<rparr>"

definition testTransport :: Transport where
  "testTransport = \<lparr> tr_send = (\<lambda>peerId bytes. None), tr_stop = None \<rparr>"

definition upperCase :: "string \<Rightarrow> string" where
  "upperCase s =
     map (\<lambda>c. if CHR ''a'' \<le> c \<and> c \<le> CHR ''z''
               then char_of ((of_char c :: int) - 32) else c) s"

text \<open>The echo tool and its handler of the test fixtures, \<open>{ echo: payload.message }\<close>.\<close>

definition echoTool :: Tool where
  "echoTool = \<lparr> tool_name = ''echo'',
                 tool_description = ''Echoes back the message it receives'',
                 tool_parameters = None \<rparr>"

definition echoHandler :: "jsval \<Rightarrow> outcome" where
  "echoHandler payload =
     Returns (Obj [(''echo'', case map_of (ownProperties payload) ''message'' of
                                Some m \<Rightarrow> m | None \<Rightarrow> Undefined)])"

definition testAgent :: Agent where
  "testAgent =
     registerTool echoTool echoHandler
       \<lparr> identity = testIdentity, delegation = None, tools = [],
         pending = [(''t1'', \<lparr> pr_promise = 1, pr_timer = 11 \<rparr>),
                    (''t2'', \<lparr> pr_promise = 2, pr_timer = 12 \<rparr>)],
         peerCerts = [], requestTimeoutMs = 30000, started = True \<rparr>"

definition testEnvelope :: "string \<Rightarrow> jsval \<Rightarrow> TaskEnvelope" where
  "testEnvelope tool payload =
     createTaskEnvelope testEd ''id-1'' 1000 testIdentity ''peerB'' tool payload"

definition testResponse :: TaskResponse where
  "testResponse =
     createTaskResponse testEd 1500 testIdentity ''t2'' (Obj [(''echo'', Str ''hello'')])"

definition testCert :: "string \<Rightarrow> DelegationCert" where
  "testCert agentKey = createDelegationCert testEd 1000 testIdentity agentKey [''*''] 60000"

definition smallEnvelope :: TaskEnvelope where
  "smallEnvelope = \<lparr> env_taskId = ''t'', env_from = ''6b'', env_to = ''p'', env_tool = ''echo'',
                     env_payload = Null, env_timestamp = 1, env_signature = ''00'' \<rparr>"

definition smallResponse :: TaskResponse where
  "smallResponse = \<lparr> resp_taskId = ''t'', resp_from = ''6b'', resp_result = Null,
                     resp_timestamp = 1, resp_signature = ''00'' \<rparr>"

definition smallCert :: DelegationCert where
  "smallCert = \<lparr> cert_owner = ''6b'', cert_agent = ''61'', cert_scope = [''*''],
                 cert_issuedAt = 1, cert_expiresAt = 2, cert_signature = ''00'' \<rparr>"

text \<open>A second key pair, of another owner.\<close>

definition otherIdentity :: AgentIdentity where
  "otherIdentity = \<lparr> publicKey = ''j'', secretKey = ''j'' \<rparr>"

subsection \<open>Signed responses\<close>

text \<open>
  A response is signed by a key pair when its \<open>from\<close> is the public key in
  hexadecimal and its \<open>signature\<close> is the signature, in hexadecimal, of the canonical
  encoding of its other fields.
\<close>

definition signedBy :: "Ed25519 \<Rightarrow> AgentIdentity \<Rightarrow> TaskResponse \<Rightarrow> bool" where
  "signedBy ed keys response =
     (resp_from response = ed_bytesToHex ed (publicKey keys)
      \<and> resp_signature response
          = ed_bytesToHex ed (sign ed (canonicalize (responseUnsigned response)) (secretKey keys)))"

section \<open>Facts about the executable instance\<close>

lemma hexValue_hexDigit_table:
  "list_all (\<lambda>k. hexValue (hexDigit k) = Some k) [0,1,2,3,4,5,6,7,8,9,10,11,12,13,14,15]"
  by (simp add: hexValue_def hexDigit_def)

lemma below_16_listed:
  "0 \<le> k \<Longrightarrow> (k::int) < 16 \<Longrightarrow> k \<in> set [0,1,2,3,4,5,6,7,8,9,10,11,12,13,14,15]"
  by (simp; arith)

lemma hexValue_hexDigit: "hexValue (hexDigit n) = Some (n mod 16)"
proof -
  have "n mod 16 \<in> set [0,1,2,3,4,5,6,7,8,9,10,11,12,13,14,15]"
    by (rule below_16_listed) simp_all
  then have "hexValue (hexDigit (n mod 16)) = Some (n mod 16)"
    using hexValue_hexDigit_table unfolding list_all_iff by blast
  then show ?thesis by (simp add: hexDigit_def)
qed

lemma hexDecode_hexEncode: "hexDecode (hexEncode bs) = Some bs"
proof (induction bs)
  case Nil
  show ?case by (simp add: hexEncode_def)
next
  case (Cons b bs)
  have lt: "(of_char b :: int) < 256" and ge: "0 \<le> (of_char b :: int)"
    by (simp_all add: of_char_def)
  have "hexEncode (b # bs)
      = hexDigit ((of_char b :: int) div 16) # hexDigit (of_char b) # hexEncode bs"
    by (simp add: hexEncode_def)
  moreover have "(of_char b :: int) div 16 mod 16 = of_char b div 16"
    using lt ge by simp
  moreover have "char_of (16 * ((of_char b :: int) div 16) + of_char b mod 16) = b" by simp
  ultimately show ?case using Cons.IH by (simp add: hexValue_hexDigit)
qed

lemma hexRoundTrip_testEd: "hexRoundTrip testEd"
  by (simp add: hexRoundTrip_def testEd_def hexDecode_hexEncode)

lemma signatureVerifies_testEd: "signatureVerifies testEd"
  by (simp add: signatureVerifies_def testEd_def)

lemma keyPair_testIdentity: "keyPair testEd testIdentity"
  by (simp add: keyPair_def testEd_def testIdentity_def keyByte_def)

section \<open>Canonical encoding is insensitive to key order\<close>

lemma wellFormed_map_of:
  "list_all (\<lambda>kv. wellFormed (snd kv)) kvs \<Longrightarrow> map_of kvs k = Some v \<Longrightarrow> wellFormed v"
  by (induction kvs) (auto split: if_splits)

lemma sorted_keys_eq:
  fixes a b :: "(string \<times> 'v) list"
  assumes "distinct (map fst a)" "distinct (map fst b)" "set (map fst a) = set (map fst b)"
  shows "sort (map fst a) = sort (map fst b)"
proof (rule sorted_distinct_set_unique)
  show "sorted (sort (map fst a))" "sorted (sort (map fst b))" by simp_all
  show "distinct (sort (map fst a))" "distinct (sort (map fst b))" using assms by simp_all
  show "set (sort (map fst a)) = set (sort (map fst b))" using assms by simp
qed

lemma fold_setProp_cong:
  assumes "\<And>k. k \<in> set ks \<Longrightarrow> f k = g k"
  shows "fold (\<lambda>key sorted. case f key of Some v \<Rightarrow> setProp key v sorted | None \<Rightarrow> sorted) ks acc
       = fold (\<lambda>key sorted. case g key of Some v \<Rightarrow> setProp key v sorted | None \<Rightarrow> sorted) ks acc"
  using assms by (induction ks arbitrary: acc) simp_all

lemma sortKeys_Obj_alt:
  "sortKeys (Obj kvs) =
     Obj (fold (\<lambda>key sorted. case map_option sortKeys (map_of kvs key) of
                                 Some v \<Rightarrow> setProp key v sorted | None \<Rightarrow> sorted)
               (sort (map fst kvs)) [])"
proof -
  have "(\<lambda>key sorted. case map_of kvs key of
                        Some v \<Rightarrow> setProp key (sortKeys v) sorted | None \<Rightarrow> sorted)
      = (\<lambda>key sorted. case map_option sortKeys (map_of kvs key) of
                         Some v \<Rightarrow> setProp key v sorted | None \<Rightarrow> sorted)"
    by (intro ext) (simp split: option.splits)
  then show ?thesis by simp
qed

lemma sortKeys_structEq:
  "structEq v1 v2 \<Longrightarrow> wellFormed v1 \<Longrightarrow> wellFormed v2 \<Longrightarrow> sortKeys v1 = sortKeys v2"
proof (induction v1 v2 rule: structEq.induct)
  case (1 xs ys)
  from "1.prems" have rel: "list_all2 structEq xs ys" by simp
  from "1.prems" have wx: "\<forall>x \<in> set xs. wellFormed x" and wy: "\<forall>y \<in> set ys. wellFormed y"
    by (simp_all add: list_all_iff)
  have "list_all2 (\<lambda>x y. sortKeys x = sortKeys y) xs ys"
    using rel wx wy "1.IH" by (auto simp: list_all2_conv_all_nth)
  then have "map sortKeys xs = map sortKeys ys"
    by (simp add: list_all2_conv_all_nth list_eq_iff_nth_eq)
  then show ?case by simp
next
  case (2 a b)
  from "2.prems" have keys: "set (map fst a) = set (map fst b)"
    and vals: "\<forall>kv \<in> set a. case map_of b (fst kv) of
                                 Some w \<Rightarrow> structEq (snd kv) w | None \<Rightarrow> False"
    and da: "distinct (map fst a)" and db: "distinct (map fst b)"
    and wa: "list_all (\<lambda>kv. wellFormed (snd kv)) a"
    and wb: "list_all (\<lambda>kv. wellFormed (snd kv)) b"
    by (simp_all add: list_all_iff)
  have ks: "sort (map fst a) = sort (map fst b)"
    using da db keys by (rule sorted_keys_eq)
  have each: "map_option sortKeys (map_of a k) = map_option sortKeys (map_of b k)"
    if "k \<in> set (sort (map fst a))" for k
  proof -
    from that have "k \<in> set (map fst a)" by simp
    then obtain v where v: "map_of a k = Some v"
      by (metis map_of_eq_None_iff not_Some_eq set_map)
    have mem: "(k, v) \<in> set a" using v by (rule map_of_SomeD)
    have "case map_of b k of Some w \<Rightarrow> structEq v w | None \<Rightarrow> False"
      using bspec [OF vals mem] by (cases "map_of b k") simp_all
    then obtain w where w: "map_of b k = Some w" and eq: "structEq v w"
      by (cases "map_of b k") simp_all
    have "wellFormed v" using wa v by (rule wellFormed_map_of)
    moreover have "wellFormed w" using wb w by (rule wellFormed_map_of)
    ultimately have "sortKeys v = sortKeys w"
      using "2.IH" [of "(k, v)" w] mem w eq by simp
    with v w show ?thesis by simp
  qed
  show ?case
    unfolding sortKeys_Obj_alt ks [symmetric]
    using fold_setProp_cong [of "sort (map fst a)" "\<lambda>k. map_option sortKeys (map_of a k)"
                               "\<lambda>k. map_option sortKeys (map_of b k)" "[]"] each
    by simp
qed simp_all

text \<open>
  Claim C1. For every two structurally equal values, whatever the order in which their
  object keys were inserted at any nesting level, \<open>canonicalize\<close> returns the same
  bytes.
\<close>

theorem canonicalize_structEq:
  assumes "wellFormed v1" and "wellFormed v2" and "structEq v1 v2"
  shows "canonicalize v1 = canonicalize v2"
  using sortKeys_structEq [OF assms(3) assms(1) assms(2)]
  by (simp add: canonicalize_def canonicalJson_def)

theorem canonicalize_structEq_witness:
  "wellFormed (Obj [(''z'', Num 1), (''a'', Arr [Obj [(''d'', Null), (''c'', Str ''x'')]])])
   \<and> wellFormed (Obj [(''a'', Arr [Obj [(''c'', Str ''x''), (''d'', Null)]]), (''z'', Num 1)])
   \<and> structEq (Obj [(''z'', Num 1), (''a'', Arr [Obj [(''d'', Null), (''c'', Str ''x'')]])])
               (Obj [(''a'', Arr [Obj [(''c'', Str ''x''), (''d'', Null)]]), (''z'', Num 1)])
   \<and> canonicalize (Obj [(''z'', Num 1), (''a'', Arr [Obj [(''d'', Null), (''c'', Str ''x'')]])])
     = canonicalize (Obj [(''a'', Arr [Obj [(''c'', Str ''x''), (''d'', Null)]]), (''z'', Num 1)])"
proof -
  have w1: "wellFormed (Obj [(''z'', Num 1), (''a'', Arr [Obj [(''d'', Null), (''c'', Str ''x'')]])])"
    by simp
  have w2: "wellFormed (Obj [(''a'', Arr [Obj [(''c'', Str ''x''), (''d'', Null)]]), (''z'', Num 1)])"
    by simp
  have eq: "structEq (Obj [(''z'', Num 1), (''a'', Arr [Obj [(''d'', Null), (''c'', Str ''x'')]])])
                     (Obj [(''a'', Arr [Obj [(''c'', Str ''x''), (''d'', Null)]]), (''z'', Num 1)])"
    by auto
  show ?thesis
    using w1 w2 eq canonicalize_structEq [OF w1 w2 eq] by blast
qed

section \<open>The canonical encoding determines the signed fields\<close>

text \<open>
  The canonical encoding of the signed fields can be read back: a quoted string ends at
  its closing quote, a number at the first character that is not a digit, and an array or
  an object at its closing bracket. So two envelopes (two responses) with the same
  canonical encoding agree on every scalar field and on the JSON text of the payload (of
  the result).
\<close>

subsection \<open>Quoted strings\<close>

lemma hexDigit_eqD: "hexDigit a = hexDigit b \<Longrightarrow> a mod 16 = b mod 16"
proof -
  assume "hexDigit a = hexDigit b"
  then have "hexValue (hexDigit a) = hexValue (hexDigit b)" by simp
  then show ?thesis by (simp add: hexValue_hexDigit)
qed

lemma control_char_eq:
  fixes c d :: char
  assumes "(of_char c :: int) < 32" "(of_char d :: int) < 32"
    and "hexDigit (of_char c) = hexDigit (of_char d)"
    and "hexDigit (of_char c div 16) = hexDigit (of_char d div 16)"
  shows "c = d"
proof -
  have c0: "0 \<le> (of_char c :: int)" and d0: "0 \<le> (of_char d :: int)"
    by (simp_all add: of_char_def)
  have lo: "(of_char c :: int) mod 16 = of_char d mod 16"
    using assms(3) by (rule hexDigit_eqD)
  have hi: "(of_char c :: int) div 16 mod 16 = of_char d div 16 mod 16"
    using assms(4) by (rule hexDigit_eqD)
  have "(of_char c :: int) div 16 mod 16 = of_char c div 16"
    and "(of_char d :: int) div 16 mod 16 = of_char d div 16"
    using assms(1,2) c0 d0 by simp_all
  with hi have hi': "(of_char c :: int) div 16 = of_char d div 16" by simp
  have "(of_char c :: int) = 16 * (of_char c div 16) + of_char c mod 16" by simp
  also have "\<dots> = 16 * (of_char d div 16) + of_char d mod 16" using lo hi' by simp
  also have "\<dots> = of_char d" by simp
  finally show ?thesis by simp
qed

lemma quoteChar_Cons: "\<exists>e es. quoteChar c = e # es \<and> e \<noteq> CHR 0x22"
  by (simp add: quoteChar_def)

lemma quoteChar_form:
  "(quoteChar c = [c] \<and> c \<noteq> CHR 0x5C)
   \<or> (\<exists>e. quoteChar c = [CHR 0x5C, e] \<and> e \<noteq> CHR ''u''
          \<and> c = (if e = CHR ''b'' then CHR 0x08 else if e = CHR ''t'' then CHR 0x09
                  else if e = CHR ''n'' then CHR 0x0A else if e = CHR ''f'' then CHR 0x0C
                  else if e = CHR ''r'' then CHR 0x0D else e))
   \<or> (quoteChar c = [CHR 0x5C, CHR ''u'', CHR ''0'', CHR ''0'',
                       hexDigit (of_char c div 16), hexDigit (of_char c)]
        \<and> (of_char c :: int) < 32)"
  by (simp add: quoteChar_def)

lemma quoteChar_append_eq:
  assumes "quoteChar c @ x = quoteChar d @ y"
  shows "c = d \<and> x = y"
proof -
  consider (plain) "quoteChar c = [c]" "c \<noteq> CHR 0x5C"
    | (short) e where "quoteChar c = [CHR 0x5C, e]" "e \<noteq> CHR ''u''"
        "c = (if e = CHR ''b'' then CHR 0x08 else if e = CHR ''t'' then CHR 0x09
              else if e = CHR ''n'' then CHR 0x0A else if e = CHR ''f'' then CHR 0x0C
              else if e = CHR ''r'' then CHR 0x0D else e)"
    | (long) "quoteChar c = [CHR 0x5C, CHR ''u'', CHR ''0'', CHR ''0'',
                             hexDigit (of_char c div 16), hexDigit (of_char c)]"
        "(of_char c :: int) < 32"
    using quoteChar_form [of c] by blast
  then show ?thesis
  proof cases
    case plain
    consider (plain') "quoteChar d = [d]" "d \<noteq> CHR 0x5C"
      | (other) e es where "quoteChar d = CHR 0x5C # e # es"
      using quoteChar_form [of d] by blast
    then show ?thesis
    proof cases
      case plain'
      with plain assms show ?thesis by simp
    next
      case other
      with plain assms show ?thesis by simp
    qed
  next
    case short
    consider (plain') "quoteChar d = [d]" "d \<noteq> CHR 0x5C"
      | (short') e' where "quoteChar d = [CHR 0x5C, e']" "e' \<noteq> CHR ''u''"
          "d = (if e' = CHR ''b'' then CHR 0x08 else if e' = CHR ''t'' then CHR 0x09
                else if e' = CHR ''n'' then CHR 0x0A else if e' = CHR ''f'' then CHR 0x0C
                else if e' = CHR ''r'' then CHR 0x0D else e')"
      | (long') es where "quoteChar d = CHR 0x5C # CHR ''u'' # es"
      using quoteChar_form [of d] by blast
    then show ?thesis
    proof cases
      case plain'
      with short(1) assms show ?thesis by simp
    next
      case short'
      from short(1) short'(1) assms have "e = e'" and "x = y" by simp_all
      with short(3) short'(3) show ?thesis by simp
    next
      case long'
      with short(1,2) assms show ?thesis by simp
    qed
  next
    case long
    consider (plain') "quoteChar d = [d]" "d \<noteq> CHR 0x5C"
      | (short') e' where "quoteChar d = [CHR 0x5C, e']" "e' \<noteq> CHR ''u''"
      | (long') "quoteChar d = [CHR 0x5C, CHR ''u'', CHR ''0'', CHR ''0'',
                               hexDigit (of_char d div 16), hexDigit (of_char d)]"
          "(of_char d :: int) < 32"
      using quoteChar_form [of d] by blast
    then show ?thesis
    proof cases
      case plain'
      with long(1) assms show ?thesis by simp
    next
      case short'
      with long(1) assms show ?thesis by simp
    next
      case long'
      from long(1) long'(1) assms
      have "hexDigit (of_char c div 16) = hexDigit (of_char d div 16)"
        and "hexDigit (of_char c) = hexDigit (of_char d)" and "x = y"
        by simp_all
      with long(2) long'(2) control_char_eq [of c d] show ?thesis by simp
    qed
  qed
qed

lemma quoteBody_append_eq:
  "concat (map quoteChar s) @ CHR 0x22 # r = concat (map quoteChar t) @ CHR 0x22 # r'
     \<Longrightarrow> s = t \<and> r = r'"
proof (induction s arbitrary: t)
  case Nil
  show ?case
  proof (cases t)
    case Nil
    with Nil.prems show ?thesis by simp
  next
    case (Cons d t')
    obtain e es where "quoteChar d = e # es" "e \<noteq> CHR 0x22"
      using quoteChar_Cons by blast
    with Nil.prems Cons show ?thesis by simp
  qed
next
  case (Cons c s')
  show ?case
  proof (cases t)
    case Nil
    obtain e es where "quoteChar c = e # es" "e \<noteq> CHR 0x22"
      using quoteChar_Cons by blast
    with Cons.prems Nil show ?thesis by simp
  next
    case (Cons d t')
    with Cons.prems
    have "quoteChar c @ (concat (map quoteChar s') @ CHR 0x22 # r)
        = quoteChar d @ (concat (map quoteChar t') @ CHR 0x22 # r')"
      by simp
    then have "c = d" and "concat (map quoteChar s') @ CHR 0x22 # r
        = concat (map quoteChar t') @ CHR 0x22 # r'"
      using quoteChar_append_eq by blast+
    with Cons.IH [of t'] Cons show ?thesis by simp
  qed
qed

lemma quoteJSON_append_eq: "quoteJSON s @ r = quoteJSON t @ r' \<Longrightarrow> s = t \<and> r = r'"
  using quoteBody_append_eq [of s r t r'] by (simp add: quoteJSON_def)

subsection \<open>Decimal numbers\<close>

lemma decimal_digit_table:
  "list_all (\<lambda>k. isDigit (hexDigit k) \<and> digitVal (hexDigit k) = k) [0,1,2,3,4,5,6,7,8,9]"
  by (simp add: isDigit_def digitVal_def hexDigit_def)

lemma below_10_listed: "0 \<le> k \<Longrightarrow> (k::int) < 10 \<Longrightarrow> k \<in> set [0,1,2,3,4,5,6,7,8,9]"
  by (simp; arith)

lemma decimal_digit:
  assumes "0 \<le> k" "(k::int) < 10"
  shows "isDigit (hexDigit k)" and "digitVal (hexDigit k) = k"
proof -
  have "k \<in> set [0,1,2,3,4,5,6,7,8,9]" using assms by (rule below_10_listed)
  then have "isDigit (hexDigit k) \<and> digitVal (hexDigit k) = k"
    using decimal_digit_table unfolding list_all_iff by blast
  then show "isDigit (hexDigit k)" and "digitVal (hexDigit k) = k" by simp_all
qed

lemma parseDec_snoc: "parseDec (s @ [c]) = 10 * parseDec s + digitVal c"
  by (simp add: parseDec_def)

lemma digits_facts:
  "0 \<le> n \<Longrightarrow> list_all isDigit (digits n) \<and> digits n \<noteq> [] \<and> parseDec (digits n) = n"
proof (induction n rule: digits.induct)
  case (1 n)
  show ?case
  proof (cases "n < 10")
    case True
    then have "digits n = [hexDigit n]" by (subst digits.simps) simp
    moreover have "parseDec [hexDigit n] = digitVal (hexDigit n)" by (simp add: parseDec_def)
    ultimately show ?thesis using decimal_digit [of n] 1(2) True by (simp del: digits.simps)
  next
    case False
    then have eq: "digits n = digits (n div 10) @ [hexDigit (n mod 10)]"
      by (subst digits.simps) simp
    have "0 \<le> n div 10" using 1(2) by simp
    with 1(1) False have ih: "list_all isDigit (digits (n div 10))"
      "parseDec (digits (n div 10)) = n div 10" by (simp_all del: digits.simps)
    have d: "isDigit (hexDigit (n mod 10))" "digitVal (hexDigit (n mod 10)) = n mod 10"
      using decimal_digit [of "n mod 10"] by simp_all
    show ?thesis unfolding eq using ih d by (simp add: parseDec_snoc del: digits.simps)
  qed
qed

lemma digits_eqD:
  assumes "0 \<le> n" "0 \<le> m" "digits n = digits m"
  shows "n = m"
proof -
  have "parseDec (digits n) = n" using digits_facts [OF assms(1)] by blast
  moreover have "parseDec (digits m) = m" using digits_facts [OF assms(2)] by blast
  ultimately show ?thesis using assms(3) by metis
qed

lemma numberToString_chars:
  "list_all (\<lambda>c. isDigit c \<or> c = CHR ''-'') (numberToString n) \<and> numberToString n \<noteq> []"
proof (cases "n < 0")
  case True
  then have "list_all isDigit (digits (- n))"
    using digits_facts [of "- n"] by (simp del: digits.simps)
  then have "list_all (\<lambda>c. isDigit c \<or> c = CHR ''-'') (digits (- n))"
    by (simp add: list_all_iff del: digits.simps)
  with True show ?thesis by (simp add: numberToString_def del: digits.simps)
next
  case False
  then have "list_all isDigit (digits n)" "digits n \<noteq> []"
    using digits_facts [of n] by (simp_all del: digits.simps)
  then have "list_all (\<lambda>c. isDigit c \<or> c = CHR ''-'') (digits n)" "digits n \<noteq> []"
    by (simp_all add: list_all_iff del: digits.simps)
  with False show ?thesis by (simp add: numberToString_def del: digits.simps)
qed

lemma numberToString_eqD: "numberToString n = numberToString m \<Longrightarrow> n = m"
proof -
  assume eq: "numberToString n = numberToString m"
  have minus: "\<not> isDigit (CHR ''-'')" by (simp add: isDigit_def)
  have no_minus: "digits k \<noteq> CHR ''-'' # s" if "0 \<le> k" for k s
  proof
    assume "digits k = CHR ''-'' # s"
    moreover have "list_all isDigit (digits k)"
      using digits_facts [OF that] by (simp del: digits.simps)
    ultimately show False using minus by (simp del: digits.simps)
  qed
  show "n = m"
  proof (cases "n < 0")
    case n: True
    show ?thesis
    proof (cases "m < 0")
      case True
      with n eq have "digits (- n) = digits (- m)" by (simp add: numberToString_def del: digits.simps)
      with n True digits_eqD [of "- n" "- m"] show ?thesis by (simp del: digits.simps)
    next
      case False
      with n eq no_minus [of m "digits (- n)"] show ?thesis by (simp add: numberToString_def del: digits.simps)
    qed
  next
    case n: False
    show ?thesis
    proof (cases "m < 0")
      case True
      with n eq no_minus [of n "digits (- m)"] show ?thesis by (simp add: numberToString_def del: digits.simps)
    next
      case False
      with n eq digits_eqD [of n m] show ?thesis by (simp add: numberToString_def del: digits.simps)
    qed
  qed
qed

lemma longest_prefix_eq:
  "list_all P xs \<Longrightarrow> list_all P ys \<Longrightarrow> r = [] \<or> \<not> P (hd r) \<Longrightarrow> r' = [] \<or> \<not> P (hd r')
     \<Longrightarrow> xs @ r = ys @ r' \<Longrightarrow> xs = ys \<and> r = r'"
proof (induction xs arbitrary: ys)
  case Nil
  then show ?case by (cases ys) auto
next
  case (Cons x xs)
  show ?case
  proof (cases ys)
    case Nil
    with Cons.prems show ?thesis by auto
  next
    case (Cons y ys')
    with Cons.prems Cons.IH [of ys'] show ?thesis by simp
  qed
qed

lemma numberToString_append_eq:
  assumes "numberToString n @ r = numberToString m @ r'"
    and "r = [] \<or> hd r \<in> {CHR '','', CHR '']'', CHR ''}''}"
    and "r' = [] \<or> hd r' \<in> {CHR '','', CHR '']'', CHR ''}''}"
  shows "n = m \<and> r = r'"
proof -
  let ?P = "\<lambda>c. isDigit c \<or> c = CHR ''-''"
  have "r = [] \<or> \<not> ?P (hd r)" using assms(2) by (auto simp: isDigit_def)
  moreover have "r' = [] \<or> \<not> ?P (hd r')" using assms(3) by (auto simp: isDigit_def)
  ultimately have "numberToString n = numberToString m \<and> r = r'"
    using longest_prefix_eq [of ?P "numberToString n" "numberToString m" r r']
      numberToString_chars [of n] numberToString_chars [of m] assms(1)
    by blast
  then show ?thesis using numberToString_eqD by blast
qed

lemma numberToString_Cons:
  "\<exists>c cs. numberToString n = c # cs \<and> (isDigit c \<or> c = CHR ''-'')"
  using numberToString_chars [of n] by (cases "numberToString n") simp_all

subsection \<open>JSON texts\<close>

lemma numberToString_hd:
  "numberToString n \<noteq> []"
  "isDigit (hd (numberToString n)) \<or> hd (numberToString n) = CHR ''-''"
  using numberToString_Cons [of n] by auto

lemma stringify_hd:
  assumes "stringify v = Some s"
  shows "s \<noteq> [] \<and>
         (case v of
            Undefined \<Rightarrow> False
          | Null \<Rightarrow> hd s = CHR ''n''
          | Bool b \<Rightarrow> hd s = (if b then CHR ''t'' else CHR ''f'')
          | Num n \<Rightarrow> isDigit (hd s) \<or> hd s = CHR ''-''
          | Str x \<Rightarrow> hd s = CHR 0x22
          | Arr xs \<Rightarrow> hd s = CHR ''[''
          | Obj kvs \<Rightarrow> hd s = CHR ''{'')"
proof (cases v)
  case (Num n)
  with assms have "s = numberToString n" by simp
  with Num numberToString_hd [of n] show ?thesis by simp
qed (use assms in \<open>auto simp: quoteJSON_def\<close>)

lemma stringify_hd_delimiter:
  assumes "stringify v = Some s"
  shows "\<exists>c cs. s = c # cs \<and> c \<notin> {CHR '','', CHR '']'', CHR ''}'', CHR '':''}"
proof -
  have "hd s \<notin> {CHR '','', CHR '']'', CHR ''}'', CHR '':''}"
    using stringify_hd [OF assms] by (cases v) (auto simp: isDigit_def split: if_splits)
  moreover have "s \<noteq> []" using stringify_hd [OF assms] by simp
  ultimately show ?thesis by (cases s) auto
qed

lemma same_kind:
  assumes "stringify v = Some s" "stringify w = Some t" "s @ r = t @ r'"
  shows "(case v of
            Undefined \<Rightarrow> False
          | Null \<Rightarrow> w = Null
          | Bool b \<Rightarrow> w = Bool b
          | Num n \<Rightarrow> (\<exists>m. w = Num m)
          | Str x \<Rightarrow> (\<exists>y. w = Str y)
          | Arr xs \<Rightarrow> (\<exists>ys. w = Arr ys)
          | Obj a \<Rightarrow> (\<exists>b. w = Obj b))"
proof -
  have s: "s \<noteq> []" and t: "t \<noteq> []"
    using stringify_hd [OF assms(1)] stringify_hd [OF assms(2)] by simp_all
  then have "hd (s @ r) = hd s" "hd (t @ r') = hd t" by simp_all
  with assms(3) have hd: "hd s = hd t" by simp
  show ?thesis
    using stringify_hd [OF assms(1)] stringify_hd [OF assms(2)] hd
    by (cases v; cases w) (auto simp: isDigit_def split: if_splits)
qed

lemma commaJoin_append:
  "commaJoin (a # rest) @ z = a @ (if rest = [] then z else CHR '','' # commaJoin rest @ z)"
  by (cases rest) simp_all

lemma stringifyElements_Cons:
  "\<exists>w t. stringify w = Some t \<and> stringifyElements (y # ys) = t # stringifyElements ys
          \<and> (w = y \<or> w = Null)"
proof (cases "stringify y")
  case None
  then have "stringify Null = Some ''null''
      \<and> stringifyElements (y # ys) = ''null'' # stringifyElements ys \<and> (Null = y \<or> Null = Null)"
    by simp
  then show ?thesis by blast
next
  case (Some u)
  then have "stringify y = Some u
      \<and> stringifyElements (y # ys) = u # stringifyElements ys \<and> (y = y \<or> y = Null)"
    by simp
  then show ?thesis by blast
qed

lemma elements_append_eq:
  assumes "\<And>x s w t r r'. x \<in> set xs \<Longrightarrow> stringify x = Some s \<Longrightarrow> stringify w = Some t
             \<Longrightarrow> delimited r \<Longrightarrow> delimited r' \<Longrightarrow> s @ r = t @ r' \<Longrightarrow> s = t \<and> r = r'"
    and "commaJoin (stringifyElements xs) @ CHR '']'' # r
           = commaJoin (stringifyElements ys) @ CHR '']'' # r'"
  shows "stringifyElements xs = stringifyElements ys \<and> r = r'"
  using assms
proof (induction xs arbitrary: ys)
  case Nil
  show ?case
  proof (cases ys)
    case Nil
    with Nil.prems(2) show ?thesis by simp
  next
    case (Cons y ys')
    obtain w t where w: "stringify w = Some t"
      and t: "stringifyElements ys = t # stringifyElements ys'"
      unfolding Cons using stringifyElements_Cons [of y ys'] by blast
    obtain c cs where "t = c # cs" "c \<noteq> CHR '']''"
      using stringify_hd_delimiter [OF w] by auto
    with Nil.prems(2) t show ?thesis by (simp add: commaJoin_append)
  qed
next
  case (Cons x xs')
  obtain v s where v: "stringify v = Some s"
    and s: "stringifyElements (x # xs') = s # stringifyElements xs'"
    and vx: "v = x \<or> v = Null"
    using stringifyElements_Cons [of x xs'] by blast
  note sub = Cons.prems(1) [OF list.set_intros(2)]
  show ?case
  proof (cases ys)
    case Nil
    obtain c cs where "s = c # cs" "c \<noteq> CHR '']''"
      using stringify_hd_delimiter [OF v] by auto
    with Cons.prems(2) s Nil show ?thesis by (simp add: commaJoin_append)
  next
    case ys: (Cons y ys')
    obtain w t where w: "stringify w = Some t"
      and t: "stringifyElements ys = t # stringifyElements ys'"
      unfolding ys using stringifyElements_Cons [of y ys'] by blast
    let ?X = "if stringifyElements xs' = [] then CHR '']'' # r
              else CHR '','' # commaJoin (stringifyElements xs') @ CHR '']'' # r"
    let ?Y = "if stringifyElements ys' = [] then CHR '']'' # r'
              else CHR '','' # commaJoin (stringifyElements ys') @ CHR '']'' # r'"
    have eq: "s @ ?X = t @ ?Y"
      using Cons.prems(2) unfolding s t commaJoin_append .
    have dx: "delimited ?X" and dy: "delimited ?Y" by (simp_all add: delimited_def)
    have one: "s = t \<and> ?X = ?Y"
    proof (cases "v = x")
      case True
      with Cons.prems(1) [of x s w t ?X ?Y] v w dx dy eq show ?thesis by simp
    next
      case False
      with vx have "v = Null" by simp
      with v have "s = ''null''" by simp
      moreover from same_kind [OF v w eq] \<open>v = Null\<close> have "w = Null" by simp
      with w have "t = ''null''" by simp
      ultimately show ?thesis using eq by simp
    qed
    show ?thesis
    proof (cases "stringifyElements xs' = []")
      case True
      with one show ?thesis unfolding s t by (simp split: if_splits)
    next
      case False
      with one have ne: "stringifyElements ys' \<noteq> []"
        and rest: "commaJoin (stringifyElements xs') @ CHR '']'' # r
                     = commaJoin (stringifyElements ys') @ CHR '']'' # r'"
        by (simp_all split: if_splits)
      have "stringifyElements xs' = stringifyElements ys' \<and> r = r'"
        using sub rest by (rule Cons.IH [of ys'])
      with one show ?thesis unfolding s t by simp
    qed
  qed
qed

lemma stringifyProperties_texts:
  "\<forall>t \<in> set (stringifyProperties kvs). \<exists>k w u. t = quoteJSON k @ '':'' @ u \<and> stringify w = Some u"
proof (induction kvs)
  case Nil
  show ?case by simp
next
  case (Cons kv kvs)
  obtain k v where kv: "kv = (k, v)" by (cases kv)
  show ?case unfolding kv using Cons.IH by (cases "stringify v") auto
qed

lemma properties_append_eq:
  assumes "\<And>k v s w t r r'. (k, v) \<in> set kvs \<Longrightarrow> stringify v = Some s \<Longrightarrow> stringify w = Some t
             \<Longrightarrow> delimited r \<Longrightarrow> delimited r' \<Longrightarrow> s @ r = t @ r' \<Longrightarrow> s = t \<and> r = r'"
    and "\<forall>t \<in> set ts. \<exists>k w u. t = quoteJSON k @ '':'' @ u \<and> stringify w = Some u"
    and "commaJoin (stringifyProperties kvs) @ CHR ''}'' # r = commaJoin ts @ CHR ''}'' # r'"
  shows "stringifyProperties kvs = ts \<and> r = r'"
  using assms
proof (induction kvs arbitrary: ts)
  case Nil
  show ?case
  proof (cases ts)
    case Nil
    with Nil.prems(3) show ?thesis by simp
  next
    case (Cons t ts')
    with Nil.prems(2) obtain k u where "t = quoteJSON k @ '':'' @ u" by auto
    with Nil.prems(3) Cons show ?thesis by (simp add: commaJoin_append quoteJSON_def)
  qed
next
  case (Cons kv kvs')
  obtain k v where kv: "kv = (k, v)" by (cases kv)
  note sub = Cons.prems(1) [OF list.set_intros(2)]
  show ?case
  proof (cases "stringify v")
    case None
    then have same: "stringifyProperties (kv # kvs') = stringifyProperties kvs'" by (simp add: kv)
    have "stringifyProperties kvs' = ts \<and> r = r'"
      using sub Cons.prems(2) Cons.prems(3) [unfolded same] by (rule Cons.IH [of ts])
    then show ?thesis unfolding same .
  next
    case (Some s)
    then have s: "stringifyProperties (kv # kvs')
                    = (quoteJSON k @ '':'' @ s) # stringifyProperties kvs'"
      by (simp add: kv)
    show ?thesis
    proof (cases ts)
      case Nil
      with Cons.prems(3) s show ?thesis by (simp add: commaJoin_append quoteJSON_def)
    next
      case ts: (Cons t ts')
      with Cons.prems(2) obtain k' w u where t: "t = quoteJSON k' @ '':'' @ u"
        and w: "stringify w = Some u" by auto
      let ?X = "if stringifyProperties kvs' = [] then CHR ''}'' # r
                else CHR '','' # commaJoin (stringifyProperties kvs') @ CHR ''}'' # r"
      let ?Y = "if ts' = [] then CHR ''}'' # r'
                else CHR '','' # commaJoin ts' @ CHR ''}'' # r'"
      have "(quoteJSON k @ '':'' @ s) @ ?X = (quoteJSON k' @ '':'' @ u) @ ?Y"
        using Cons.prems(3) unfolding s ts t commaJoin_append .
      then have "quoteJSON k @ (CHR '':'' # s @ ?X) = quoteJSON k' @ (CHR '':'' # u @ ?Y)"
        by simp
      then have k: "k = k'" and eq: "s @ ?X = u @ ?Y"
        using quoteJSON_append_eq [of k "CHR '':'' # s @ ?X" k' "CHR '':'' # u @ ?Y"] by simp_all
      have dx: "delimited ?X" and dy: "delimited ?Y" by (simp_all add: delimited_def)
      have one: "s = u \<and> ?X = ?Y"
        using Cons.prems(1) [of k v s w u ?X ?Y] Some w dx dy eq by (simp add: kv)
      show ?thesis
      proof (cases "stringifyProperties kvs' = []")
        case True
        with one k show ?thesis unfolding s ts t by (simp split: if_splits)
      next
        case False
        with one have rest: "commaJoin (stringifyProperties kvs') @ CHR ''}'' # r
                       = commaJoin ts' @ CHR ''}'' # r'"
          by (simp_all split: if_splits)
        have "\<forall>t \<in> set ts'. \<exists>k w u. t = quoteJSON k @ '':'' @ u \<and> stringify w = Some u"
          using Cons.prems(2) by (simp add: ts)
        with sub have "stringifyProperties kvs' = ts' \<and> r = r'"
          using rest by (rule Cons.IH [of ts'])
        with one k show ?thesis unfolding s ts t by simp
      qed
    qed
  qed
qed

lemma stringify_append_eq:
  "stringify v = Some s \<Longrightarrow> stringify w = Some t \<Longrightarrow> delimited r \<Longrightarrow> delimited r'
     \<Longrightarrow> s @ r = t @ r' \<Longrightarrow> s = t \<and> r = r'"
proof (induction v arbitrary: s w t r r')
  case Undefined
  then show ?case by simp
next
  case Null
  from same_kind [OF Null(1,2,5)] have "w = Null" by simp
  with Null show ?case by simp
next
  case (Bool b)
  from same_kind [OF Bool(1,2,5)] have "w = Bool b" by simp
  with Bool show ?case by simp
next
  case (Num n)
  from same_kind [OF Num(1,2,5)] obtain m where "w = Num m" by auto
  with Num numberToString_append_eq [of n r m r'] show ?case by (simp add: delimited_def)
next
  case (Str x)
  from same_kind [OF Str(1,2,5)] obtain y where "w = Str y" by auto
  with Str quoteJSON_append_eq [of x r y r'] show ?case by simp
next
  case (Arr xs)
  from same_kind [OF Arr(2,3,6)] obtain ys where w: "w = Arr ys" by auto
  have "commaJoin (stringifyElements xs) @ CHR '']'' # r
          = commaJoin (stringifyElements ys) @ CHR '']'' # r'"
    using Arr(2,3,6) w by auto
  then have "stringifyElements xs = stringifyElements ys \<and> r = r'"
    using elements_append_eq [of xs r ys r'] Arr(1) by blast
  with Arr(2,3) w show ?case by auto
next
  case (Obj kvs)
  from same_kind [OF Obj(2,3,6)] obtain kvs' where w: "w = Obj kvs'" by auto
  have "commaJoin (stringifyProperties kvs) @ CHR ''}'' # r
          = commaJoin (stringifyProperties kvs') @ CHR ''}'' # r'"
    using Obj(2,3,6) w by auto
  moreover have "\<And>k v s w t r r'. (k, v) \<in> set kvs \<Longrightarrow> stringify v = Some s
      \<Longrightarrow> stringify w = Some t \<Longrightarrow> delimited r \<Longrightarrow> delimited r' \<Longrightarrow> s @ r = t @ r'
      \<Longrightarrow> s = t \<and> r = r'"
    using Obj(1) by fastforce
  ultimately have "stringifyProperties kvs = stringifyProperties kvs' \<and> r = r'"
    using properties_append_eq [of kvs "stringifyProperties kvs'" r r']
      stringifyProperties_texts [of kvs'] by blast
  with Obj(2,3) w show ?case by auto
qed

subsection \<open>UTF-8\<close>

lemma utf8_char_append_eq:
  fixes c d :: char
  assumes "(let n = (of_char c :: int) in if n < 128 then [c]
            else [char_of (192 + n div 64), char_of (128 + n mod 64)]) @ x
         = (let n = (of_char d :: int) in if n < 128 then [d]
            else [char_of (192 + n div 64), char_of (128 + n mod 64)]) @ y"
  shows "c = d \<and> x = y"
proof -
  have c: "0 \<le> (of_char c :: int)" "(of_char c :: int) < 256"
    and d: "0 \<le> (of_char d :: int)" "(of_char d :: int) < 256"
    by (simp_all add: of_char_def)
  have lead: "(of_char (char_of (192 + n div 64) :: char) :: int) = 192 + n div 64"
    and trail: "(of_char (char_of (128 + n mod 64) :: char) :: int) = 128 + n mod 64"
    if "0 \<le> n" "n < 256" for n :: int
    using that by simp_all
  show ?thesis
  proof (cases "(of_char c :: int) < 128")
    case cs: True
    show ?thesis
    proof (cases "(of_char d :: int) < 128")
      case True
      with cs assms show ?thesis by simp
    next
      case False
      with cs assms have "c = char_of (192 + (of_char d :: int) div 64)" by (simp add: Let_def)
      then have "(of_char c :: int) = of_char (char_of (192 + (of_char d :: int) div 64) :: char)"
        by simp
      with lead [OF d] have "(of_char c :: int) = 192 + of_char d div 64" by simp
      with cs d show ?thesis by simp
    qed
  next
    case cb: False
    show ?thesis
    proof (cases "(of_char d :: int) < 128")
      case True
      with cb assms have "d = char_of (192 + (of_char c :: int) div 64)" by (simp add: Let_def)
      then have "(of_char d :: int) = of_char (char_of (192 + (of_char c :: int) div 64) :: char)"
        by simp
      with lead [OF c] have "(of_char d :: int) = 192 + of_char c div 64" by simp
      with True c show ?thesis by simp
    next
      case False
      with cb assms
      have h: "(char_of (192 + (of_char c :: int) div 64) :: char)
                 = char_of (192 + (of_char d :: int) div 64)"
        and l: "(char_of (128 + (of_char c :: int) mod 64) :: char)
                 = char_of (128 + (of_char d :: int) mod 64)"
        and xy: "x = y"
        by (simp_all add: Let_def)
      from h have "(of_char (char_of (192 + (of_char c :: int) div 64) :: char) :: int)
                 = of_char (char_of (192 + (of_char d :: int) div 64) :: char)" by simp
      with lead [OF c] lead [OF d] have hi: "(of_char c :: int) div 64 = of_char d div 64" by simp
      from l have "(of_char (char_of (128 + (of_char c :: int) mod 64) :: char) :: int)
                 = of_char (char_of (128 + (of_char d :: int) mod 64) :: char)" by simp
      with trail [OF c] trail [OF d] have lo: "(of_char c :: int) mod 64 = of_char d mod 64" by simp
      have "(of_char c :: int) = 64 * (of_char c div 64) + of_char c mod 64" by simp
      also have "\<dots> = 64 * (of_char d div 64) + of_char d mod 64" using hi lo by simp
      also have "\<dots> = of_char d" by simp
      finally show ?thesis using xy by simp
    qed
  qed
qed

lemma utf8Encode_eqD: "utf8Encode s = utf8Encode t \<Longrightarrow> s = t"
proof (induction s arbitrary: t)
  case Nil
  then show ?case by (cases t) (auto simp: utf8Encode_def Let_def split: if_splits)
next
  case (Cons c s)
  show ?case
  proof (cases t)
    case Nil
    with Cons.prems show ?thesis by (auto simp: utf8Encode_def Let_def split: if_splits)
  next
    case (Cons d t')
    with Cons.prems have "c = d \<and> utf8Encode s = utf8Encode t'"
      using utf8_char_append_eq [of c "utf8Encode s" d "utf8Encode t'"]
      by (simp add: utf8Encode_def)
    with Cons.IH [of t'] Cons show ?thesis by simp
  qed
qed

lemma canonicalize_eq_iff: "canonicalize v = canonicalize w \<longleftrightarrow> canonicalJson v = canonicalJson w"
  using utf8Encode_eqD by (auto simp: canonicalize_def)

subsection \<open>The signed fields of an envelope and of a response\<close>

lemma signed_keys_sorted:
  "sort [''taskId'', ''from'', ''to'', ''tool'', ''payload'', ''timestamp'']
     = [''from'', ''payload'', ''taskId'', ''timestamp'', ''to'', ''tool'']"
  "sort [''taskId'', ''from'', ''result'', ''timestamp'']
     = [''from'', ''result'', ''taskId'', ''timestamp'']"
  by code_simp+

lemma signed_keys_plain:
  "\<not> isArrayIndex ''from''" "\<not> isArrayIndex ''payload''" "\<not> isArrayIndex ''taskId''"
  "\<not> isArrayIndex ''timestamp''" "\<not> isArrayIndex ''to''" "\<not> isArrayIndex ''tool''"
  "\<not> isArrayIndex ''result''"
  by code_simp+

lemma signed_keys_quoted:
  "quoteJSON ''from'' = ''\"from\"''" "quoteJSON ''payload'' = ''\"payload\"''"
  "quoteJSON ''taskId'' = ''\"taskId\"''" "quoteJSON ''timestamp'' = ''\"timestamp\"''"
  "quoteJSON ''to'' = ''\"to\"''" "quoteJSON ''tool'' = ''\"tool\"''"
  "quoteJSON ''result'' = ''\"result\"''"
  by code_simp+

lemma sortKeys_envelopeUnsigned:
  "sortKeys (envelopeUnsigned e)
     = Obj [(''from'', Str (env_from e)), (''payload'', sortKeys (env_payload e)),
            (''taskId'', Str (env_taskId e)), (''timestamp'', Num (env_timestamp e)),
            (''to'', Str (env_to e)), (''tool'', Str (env_tool e))]"
  by (simp add: envelopeUnsigned_def signed_keys_sorted signed_keys_plain setProp_def)

lemma sortKeys_responseUnsigned:
  "sortKeys (responseUnsigned r)
     = Obj [(''from'', Str (resp_from r)), (''result'', sortKeys (resp_result r)),
            (''taskId'', Str (resp_taskId r)), (''timestamp'', Num (resp_timestamp r))]"
  by (simp add: responseUnsigned_def signed_keys_sorted signed_keys_plain setProp_def)

lemma canonicalJson_envelopeUnsigned:
  "canonicalJson (envelopeUnsigned e)
     = ''{\"from\":'' @ quoteJSON (env_from e)
       @ (case stringify (sortKeys (env_payload e)) of
            None \<Rightarrow> [] | Some s \<Rightarrow> '',\"payload\":'' @ s)
       @ '',\"taskId\":'' @ quoteJSON (env_taskId e)
       @ '',\"timestamp\":'' @ numberToString (env_timestamp e)
       @ '',\"to\":'' @ quoteJSON (env_to e)
       @ '',\"tool\":'' @ quoteJSON (env_tool e) @ ''}''"
  by (simp add: canonicalJson_def sortKeys_envelopeUnsigned signed_keys_quoted
           split: option.splits)

lemma canonicalJson_responseUnsigned:
  "canonicalJson (responseUnsigned r)
     = ''{\"from\":'' @ quoteJSON (resp_from r)
       @ (case stringify (sortKeys (resp_result r)) of
            None \<Rightarrow> [] | Some s \<Rightarrow> '',\"result\":'' @ s)
       @ '',\"taskId\":'' @ quoteJSON (resp_taskId r)
       @ '',\"timestamp\":'' @ numberToString (resp_timestamp r) @ ''}''"
  by (simp add: canonicalJson_def sortKeys_responseUnsigned signed_keys_quoted
           split: option.splits)

lemma envelope_fields_determined:
  "canonicalize (envelopeUnsigned e') = canonicalize (envelopeUnsigned e) \<longleftrightarrow>
     env_taskId e' = env_taskId e \<and> env_from e' = env_from e \<and> env_to e' = env_to e
     \<and> env_tool e' = env_tool e \<and> env_timestamp e' = env_timestamp e
     \<and> stringify (sortKeys (env_payload e')) = stringify (sortKeys (env_payload e))"
proof
  assume "env_taskId e' = env_taskId e \<and> env_from e' = env_from e \<and> env_to e' = env_to e
     \<and> env_tool e' = env_tool e \<and> env_timestamp e' = env_timestamp e
     \<and> stringify (sortKeys (env_payload e')) = stringify (sortKeys (env_payload e))"
  then show "canonicalize (envelopeUnsigned e') = canonicalize (envelopeUnsigned e)"
    by (simp add: canonicalize_def canonicalJson_envelopeUnsigned)
next
  let ?T3 = "\<lambda>x. '',\"tool\":'' @ quoteJSON (env_tool x) @ ''}''"
  let ?T2 = "\<lambda>x. '',\"to\":'' @ quoteJSON (env_to x) @ ?T3 x"
  let ?T1 = "\<lambda>x. '',\"timestamp\":'' @ numberToString (env_timestamp x) @ ?T2 x"
  let ?T0 = "\<lambda>x. '',\"taskId\":'' @ quoteJSON (env_taskId x) @ ?T1 x"
  let ?P = "\<lambda>x. case stringify (sortKeys (env_payload x)) of
                   None \<Rightarrow> [] | Some s \<Rightarrow> '',\"payload\":'' @ s"
  assume "canonicalize (envelopeUnsigned e') = canonicalize (envelopeUnsigned e)"
  then have "canonicalJson (envelopeUnsigned e') = canonicalJson (envelopeUnsigned e)"
    by (simp add: canonicalize_eq_iff)
  then have "quoteJSON (env_from e') @ (?P e' @ ?T0 e') = quoteJSON (env_from e) @ (?P e @ ?T0 e)"
    by (simp add: canonicalJson_envelopeUnsigned)
  then have "from": "env_from e' = env_from e" and a: "?P e' @ ?T0 e' = ?P e @ ?T0 e"
    using quoteJSON_append_eq by blast+
  have payload: "stringify (sortKeys (env_payload e')) = stringify (sortKeys (env_payload e))"
    and b: "?T0 e' = ?T0 e"
  proof -
    have "stringify (sortKeys (env_payload e')) = stringify (sortKeys (env_payload e))
          \<and> ?T0 e' = ?T0 e"
    proof (cases "stringify (sortKeys (env_payload e'))")
      case None
      show ?thesis
      proof (cases "stringify (sortKeys (env_payload e))")
        case n: None
        with None a show ?thesis by simp
      next
        case (Some s)
        with None a show ?thesis by simp
      qed
    next
      case (Some s')
      show ?thesis
      proof (cases "stringify (sortKeys (env_payload e))")
        case None
        with Some a show ?thesis by simp
      next
        case s: (Some s)
        from a Some s have "s' @ ?T0 e' = s @ ?T0 e" by simp
        moreover have "delimited (?T0 e')" "delimited (?T0 e)" by (simp_all add: delimited_def)
        ultimately have "s' = s \<and> ?T0 e' = ?T0 e"
          using stringify_append_eq [OF Some s] by blast
        with Some s show ?thesis by simp
      qed
    qed
    then show "stringify (sortKeys (env_payload e')) = stringify (sortKeys (env_payload e))"
      and "?T0 e' = ?T0 e" by simp_all
  qed
  from b have "quoteJSON (env_taskId e') @ ?T1 e' = quoteJSON (env_taskId e) @ ?T1 e" by simp
  then have taskId: "env_taskId e' = env_taskId e" and c: "?T1 e' = ?T1 e"
    using quoteJSON_append_eq by blast+
  from c have "numberToString (env_timestamp e') @ ?T2 e' = numberToString (env_timestamp e) @ ?T2 e"
    by simp
  then have timestamp: "env_timestamp e' = env_timestamp e" and d: "?T2 e' = ?T2 e"
    using numberToString_append_eq [of "env_timestamp e'" "?T2 e'" "env_timestamp e" "?T2 e"]
    by simp_all
  from d have "quoteJSON (env_to e') @ ?T3 e' = quoteJSON (env_to e) @ ?T3 e" by simp
  then have to: "env_to e' = env_to e" and f: "?T3 e' = ?T3 e"
    using quoteJSON_append_eq by blast+
  from f have "quoteJSON (env_tool e') @ ''}'' = quoteJSON (env_tool e) @ ''}''" by simp
  then have tool: "env_tool e' = env_tool e"
    using quoteJSON_append_eq by blast
  from taskId "from" to tool timestamp payload
  show "env_taskId e' = env_taskId e \<and> env_from e' = env_from e \<and> env_to e' = env_to e
     \<and> env_tool e' = env_tool e \<and> env_timestamp e' = env_timestamp e
     \<and> stringify (sortKeys (env_payload e')) = stringify (sortKeys (env_payload e))"
    by simp
qed

lemma response_fields_determined:
  "canonicalize (responseUnsigned r') = canonicalize (responseUnsigned r) \<longleftrightarrow>
     resp_taskId r' = resp_taskId r \<and> resp_from r' = resp_from r
     \<and> resp_timestamp r' = resp_timestamp r
     \<and> stringify (sortKeys (resp_result r')) = stringify (sortKeys (resp_result r))"
proof
  assume "resp_taskId r' = resp_taskId r \<and> resp_from r' = resp_from r
     \<and> resp_timestamp r' = resp_timestamp r
     \<and> stringify (sortKeys (resp_result r')) = stringify (sortKeys (resp_result r))"
  then show "canonicalize (responseUnsigned r') = canonicalize (responseUnsigned r)"
    by (simp add: canonicalize_def canonicalJson_responseUnsigned)
next
  let ?T1 = "\<lambda>x. '',\"timestamp\":'' @ numberToString (resp_timestamp x) @ ''}''"
  let ?T0 = "\<lambda>x. '',\"taskId\":'' @ quoteJSON (resp_taskId x) @ ?T1 x"
  let ?P = "\<lambda>x. case stringify (sortKeys (resp_result x)) of
                   None \<Rightarrow> [] | Some s \<Rightarrow> '',\"result\":'' @ s"
  assume "canonicalize (responseUnsigned r') = canonicalize (responseUnsigned r)"
  then have "canonicalJson (responseUnsigned r') = canonicalJson (responseUnsigned r)"
    by (simp add: canonicalize_eq_iff)
  then have "quoteJSON (resp_from r') @ (?P r' @ ?T0 r') = quoteJSON (resp_from r) @ (?P r @ ?T0 r)"
    by (simp add: canonicalJson_responseUnsigned)
  then have "from": "resp_from r' = resp_from r" and a: "?P r' @ ?T0 r' = ?P r @ ?T0 r"
    using quoteJSON_append_eq by blast+
  have result: "stringify (sortKeys (resp_result r')) = stringify (sortKeys (resp_result r))"
    and b: "?T0 r' = ?T0 r"
  proof -
    have "stringify (sortKeys (resp_result r')) = stringify (sortKeys (resp_result r))
          \<and> ?T0 r' = ?T0 r"
    proof (cases "stringify (sortKeys (resp_result r'))")
      case None
      show ?thesis
      proof (cases "stringify (sortKeys (resp_result r))")
        case n: None
        with None a show ?thesis by simp
      next
        case (Some s)
        with None a show ?thesis by simp
      qed
    next
      case (Some s')
      show ?thesis
      proof (cases "stringify (sortKeys (resp_result r))")
        case None
        with Some a show ?thesis by simp
      next
        case s: (Some s)
        from a Some s have "s' @ ?T0 r' = s @ ?T0 r" by simp
        moreover have "delimited (?T0 r')" "delimited (?T0 r)" by (simp_all add: delimited_def)
        ultimately have "s' = s \<and> ?T0 r' = ?T0 r"
          using stringify_append_eq [OF Some s] by blast
        with Some s show ?thesis by simp
      qed
    qed
    then show "stringify (sortKeys (resp_result r')) = stringify (sortKeys (resp_result r))"
      and "?T0 r' = ?T0 r" by simp_all
  qed
  from b have "quoteJSON (resp_taskId r') @ ?T1 r' = quoteJSON (resp_taskId r) @ ?T1 r" by simp
  then have taskId: "resp_taskId r' = resp_taskId r" and c: "?T1 r' = ?T1 r"
    using quoteJSON_append_eq by blast+
  from c have "numberToString (resp_timestamp r') @ ''}'' = numberToString (resp_timestamp r) @ ''}''"
    by simp
  then have timestamp: "resp_timestamp r' = resp_timestamp r"
    using numberToString_append_eq [of "resp_timestamp r'" "''}''" "resp_timestamp r" "''}''"]
    by simp
  from taskId "from" timestamp result
  show "resp_taskId r' = resp_taskId r \<and> resp_from r' = resp_from r
     \<and> resp_timestamp r' = resp_timestamp r
     \<and> stringify (sortKeys (resp_result r')) = stringify (sortKeys (resp_result r))"
    by simp
qed

section \<open>Tamper detection of the signed structures\<close>

lemma verifyHex_decoded:
  "ed_hexToBytes ed sigHex = Inr sig \<Longrightarrow> ed_hexToBytes ed keyHex = Inr pk
     \<Longrightarrow> verifyHex ed sigHex m keyHex = Inr (ed_verify ed sig m pk = Some True)"
  by (auto simp: verifyHex_def verify_def split: option.splits)

lemma createTaskEnvelope_signed:
  assumes "keyPair ed keys" and "envelope = createTaskEnvelope ed uuid now keys to tool payload"
  shows "env_signature envelope
         = ed_bytesToHex ed (sign ed (canonicalize (envelopeUnsigned envelope)) (secretKey keys))"
    and "env_from envelope = ed_bytesToHex ed (publicKey keys)"
    and "publicKey keys = ed_getPublicKey ed (secretKey keys)"
  using assms(1) unfolding assms(2) keyPair_def
  by (simp_all add: createTaskEnvelope_def Let_def envelopeUnsigned_def)

lemma createTaskResponse_signed:
  assumes "keyPair ed keys" and "response = createTaskResponse ed now keys taskId result"
  shows "resp_signature response
         = ed_bytesToHex ed (sign ed (canonicalize (responseUnsigned response)) (secretKey keys))"
    and "resp_from response = ed_bytesToHex ed (publicKey keys)"
    and "publicKey keys = ed_getPublicKey ed (secretKey keys)"
  using assms(1) unfolding assms(2) keyPair_def
  by (simp_all add: createTaskResponse_def Let_def responseUnsigned_def)

lemma verifyTaskEnvelope_signature_update:
  "verifyTaskEnvelope ed (e \<lparr> env_signature := s \<rparr>)
     = verifyHex ed s (canonicalize (envelopeUnsigned e)) (env_from e)"
  by (simp add: verifyTaskEnvelope_def envelopeUnsigned_def)

lemma verifyTaskResponse_signature_update:
  "verifyTaskResponse ed (r \<lparr> resp_signature := s \<rparr>)
     = verifyHex ed s (canonicalize (responseUnsigned r)) (resp_from r)"
  by (simp add: verifyTaskResponse_def responseUnsigned_def)

text \<open>
  Claim C2, as amended. Let a TaskEnvelope or a TaskResponse be produced by its create
  function from a key pair, with a library whose signatures verify under the signer's
  public key and whose hexadecimal text decodes back. The structure verifies. When
  fields are changed and the signature is kept, \<open>from\<close> being hexadecimal text, the
  verify function returns what the library's \<open>verify\<close> returns for the signature made
  at creation, the canonical encoding of the current fields and the key that \<open>from\<close>
  now holds; and that encoding is the signed one only if \<open>taskId\<close>, \<open>from\<close>,
  \<open>to\<close>, \<open>tool\<close> and \<open>timestamp\<close> are unchanged and the payload (for a
  response, the result) has the same canonical JSON text. When only the signature is
  replaced, by hexadecimal text, the verify function returns what the library's
  \<open>verify\<close> returns for the bytes it decodes to, the unchanged encoding and the
  signer's key.
\<close>

theorem tampering_detected:
  assumes "signatureVerifies ed" and "hexRoundTrip ed" and "keyPair ed keys"
    and "envelope = createTaskEnvelope ed uuid now keys to tool payload"
    and "response = createTaskResponse ed now' keys taskId result"
  shows "verifyTaskEnvelope ed envelope = Inr True
       \<and> (\<forall>e' pk. env_signature e' = env_signature envelope
                   \<and> ed_hexToBytes ed (env_from e') = Inr pk
              \<longrightarrow> verifyTaskEnvelope ed e'
                    = Inr (ed_verify ed
                             (sign ed (canonicalize (envelopeUnsigned envelope)) (secretKey keys))
                             (canonicalize (envelopeUnsigned e')) pk = Some True))
       \<and> (\<forall>e'. canonicalize (envelopeUnsigned e') = canonicalize (envelopeUnsigned envelope)
              \<longleftrightarrow> env_taskId e' = env_taskId envelope \<and> env_from e' = env_from envelope
                  \<and> env_to e' = env_to envelope \<and> env_tool e' = env_tool envelope
                  \<and> env_timestamp e' = env_timestamp envelope
                  \<and> stringify (sortKeys (env_payload e'))
                      = stringify (sortKeys (env_payload envelope)))
       \<and> (\<forall>s sig. ed_hexToBytes ed s = Inr sig
              \<longrightarrow> verifyTaskEnvelope ed (envelope \<lparr> env_signature := s \<rparr>)
                    = Inr (ed_verify ed sig (canonicalize (envelopeUnsigned envelope))
                             (publicKey keys) = Some True))
       \<and> verifyTaskResponse ed response = Inr True
       \<and> (\<forall>r' pk. resp_signature r' = resp_signature response
                   \<and> ed_hexToBytes ed (resp_from r') = Inr pk
              \<longrightarrow> verifyTaskResponse ed r'
                    = Inr (ed_verify ed
                             (sign ed (canonicalize (responseUnsigned response)) (secretKey keys))
                             (canonicalize (responseUnsigned r')) pk = Some True))
       \<and> (\<forall>r'. canonicalize (responseUnsigned r') = canonicalize (responseUnsigned response)
              \<longleftrightarrow> resp_taskId r' = resp_taskId response \<and> resp_from r' = resp_from response
                  \<and> resp_timestamp r' = resp_timestamp response
                  \<and> stringify (sortKeys (resp_result r'))
                      = stringify (sortKeys (resp_result response)))
       \<and> (\<forall>s sig. ed_hexToBytes ed s = Inr sig
              \<longrightarrow> verifyTaskResponse ed (response \<lparr> resp_signature := s \<rparr>)
                    = Inr (ed_verify ed sig (canonicalize (responseUnsigned response))
                             (publicKey keys) = Some True))"
proof -
  have hex: "ed_hexToBytes ed (ed_bytesToHex ed bs) = Inr bs" for bs
    using assms(2) unfolding hexRoundTrip_def by blast
  have ok: "ed_verify ed (sign ed m (secretKey keys)) m (publicKey keys) = Some True" for m
    using assms(1,3) unfolding signatureVerifies_def keyPair_def sign_def by simp
  note e = createTaskEnvelope_signed [OF assms(3) assms(4)]
  note r = createTaskResponse_signed [OF assms(3) assms(5)]
  have e1: "verifyTaskEnvelope ed envelope = Inr True"
    unfolding verifyTaskEnvelope_def
    using verifyHex_decoded [of ed "env_signature envelope" _ "env_from envelope" "publicKey keys"]
      hex e(1,2) ok by simp
  have e2: "verifyTaskEnvelope ed e'
              = Inr (ed_verify ed (sign ed (canonicalize (envelopeUnsigned envelope)) (secretKey keys))
                       (canonicalize (envelopeUnsigned e')) pk = Some True)"
    if "env_signature e' = env_signature envelope \<and> ed_hexToBytes ed (env_from e') = Inr pk"
    for e' pk
    unfolding verifyTaskEnvelope_def
    using verifyHex_decoded [of ed "env_signature e'" _ "env_from e'" pk] that hex e(1) by simp
  have e4: "verifyTaskEnvelope ed (envelope \<lparr> env_signature := s \<rparr>)
              = Inr (ed_verify ed sig (canonicalize (envelopeUnsigned envelope))
                       (publicKey keys) = Some True)"
    if "ed_hexToBytes ed s = Inr sig" for s sig
    unfolding verifyTaskEnvelope_signature_update
    using verifyHex_decoded [of ed s sig "env_from envelope" "publicKey keys"] that hex e(2) by simp
  have r1: "verifyTaskResponse ed response = Inr True"
    unfolding verifyTaskResponse_def
    using verifyHex_decoded [of ed "resp_signature response" _ "resp_from response" "publicKey keys"]
      hex r(1,2) ok by simp
  have r2: "verifyTaskResponse ed r'
              = Inr (ed_verify ed (sign ed (canonicalize (responseUnsigned response)) (secretKey keys))
                       (canonicalize (responseUnsigned r')) pk = Some True)"
    if "resp_signature r' = resp_signature response \<and> ed_hexToBytes ed (resp_from r') = Inr pk"
    for r' pk
    unfolding verifyTaskResponse_def
    using verifyHex_decoded [of ed "resp_signature r'" _ "resp_from r'" pk] that hex r(1) by simp
  have r4: "verifyTaskResponse ed (response \<lparr> resp_signature := s \<rparr>)
              = Inr (ed_verify ed sig (canonicalize (responseUnsigned response))
                       (publicKey keys) = Some True)"
    if "ed_hexToBytes ed s = Inr sig" for s sig
    unfolding verifyTaskResponse_signature_update
    using verifyHex_decoded [of ed s sig "resp_from response" "publicKey keys"] that hex r(2) by simp
  show ?thesis
    using e1 e2 e4 r1 r2 r4 envelope_fields_determined response_fields_determined
    by (intro conjI allI impI) blast+
qed

theorem tampering_detected_witness:
  "signatureVerifies testEd \<and> hexRoundTrip testEd \<and> keyPair testEd testIdentity
   \<and> verifyTaskEnvelope testEd (testEnvelope ''echo'' (Obj [(''m'', Str ''hello''), (''n'', Num 1)]))
       = Inr True
   \<and> verifyTaskEnvelope testEd
        ((testEnvelope ''echo'' (Obj [(''m'', Str ''hello''), (''n'', Num 1)]))
           \<lparr> env_taskId := ''id-2'' \<rparr>) = Inr False
   \<and> verifyTaskEnvelope testEd
        ((testEnvelope ''echo'' (Obj [(''m'', Str ''hello''), (''n'', Num 1)]))
           \<lparr> env_from := ''6a'' \<rparr>) = Inr False
   \<and> verifyTaskEnvelope testEd
        ((testEnvelope ''echo'' (Obj [(''m'', Str ''hello''), (''n'', Num 1)]))
           \<lparr> env_to := ''peerC'' \<rparr>) = Inr False
   \<and> verifyTaskEnvelope testEd
        ((testEnvelope ''echo'' (Obj [(''m'', Str ''hello''), (''n'', Num 1)]))
           \<lparr> env_tool := ''other'' \<rparr>) = Inr False
   \<and> verifyTaskEnvelope testEd
        ((testEnvelope ''echo'' (Obj [(''m'', Str ''hello''), (''n'', Num 1)]))
           \<lparr> env_timestamp := 1001 \<rparr>) = Inr False
   \<and> verifyTaskEnvelope testEd
        ((testEnvelope ''echo'' (Obj [(''m'', Str ''hello''), (''n'', Num 1)]))
           \<lparr> env_payload := Obj [(''m'', Str ''tampered''), (''n'', Num 1)] \<rparr>) = Inr False
   \<and> canonicalize (envelopeUnsigned
          ((testEnvelope ''echo'' (Obj [(''m'', Str ''hello''), (''n'', Num 1)]))
             \<lparr> env_to := ''peerC'' \<rparr>))
       \<noteq> canonicalize (envelopeUnsigned
             (testEnvelope ''echo'' (Obj [(''m'', Str ''hello''), (''n'', Num 1)])))
   \<and> verifyTaskEnvelope testEd
        ((testEnvelope ''echo'' (Obj [(''m'', Str ''hello''), (''n'', Num 1)]))
           \<lparr> env_signature := ''6b00'' \<rparr>) = Inr False
   \<and> verifyTaskResponse testEd testResponse = Inr True
   \<and> verifyTaskResponse testEd (testResponse \<lparr> resp_taskId := ''t3'' \<rparr>) = Inr False
   \<and> verifyTaskResponse testEd (testResponse \<lparr> resp_from := ''6a'' \<rparr>) = Inr False
   \<and> verifyTaskResponse testEd (testResponse \<lparr> resp_timestamp := 1501 \<rparr>) = Inr False
   \<and> verifyTaskResponse testEd (testResponse \<lparr> resp_result := Obj [(''echo'', Str ''tampered'')] \<rparr>)
       = Inr False
   \<and> canonicalize (responseUnsigned (testResponse \<lparr> resp_timestamp := 1501 \<rparr>))
       \<noteq> canonicalize (responseUnsigned testResponse)
   \<and> verifyTaskResponse testEd (testResponse \<lparr> resp_signature := ''6b00'' \<rparr>) = Inr False"
proof -
  let ?e = "testEnvelope ''echo'' (Obj [(''m'', Str ''hello''), (''n'', Num 1)])"
  let ?sg = "sign testEd (canonicalize (envelopeUnsigned ?e)) (secretKey testIdentity)"
  let ?rg = "sign testEd (canonicalize (responseUnsigned testResponse)) (secretKey testIdentity)"
  note t = tampering_detected [OF signatureVerifies_testEd hexRoundTrip_testEd keyPair_testIdentity
             testEnvelope_def testResponse_def,
             of "''echo''" "Obj [(''m'', Str ''hello''), (''n'', Num 1)]"]
  have e1: "verifyTaskEnvelope testEd ?e = Inr True" using t by blast
  have e2: "verifyTaskEnvelope testEd e'
              = Inr (ed_verify testEd ?sg (canonicalize (envelopeUnsigned e')) pk = Some True)"
    if "env_signature e' = env_signature ?e" "ed_hexToBytes testEd (env_from e') = Inr pk"
    for e' pk
    using t that by blast
  have e3: "canonicalize (envelopeUnsigned e') \<noteq> canonicalize (envelopeUnsigned ?e)"
    if "env_to e' \<noteq> env_to ?e" for e'
    using t that by blast
  have e4: "verifyTaskEnvelope testEd (?e \<lparr> env_signature := s \<rparr>)
              = Inr (ed_verify testEd sig (canonicalize (envelopeUnsigned ?e))
                       (publicKey testIdentity) = Some True)"
    if "ed_hexToBytes testEd s = Inr sig" for s sig
    using t that by blast
  have r1: "verifyTaskResponse testEd testResponse = Inr True" using t by blast
  have r2: "verifyTaskResponse testEd r'
              = Inr (ed_verify testEd ?rg (canonicalize (responseUnsigned r')) pk = Some True)"
    if "resp_signature r' = resp_signature testResponse"
      "ed_hexToBytes testEd (resp_from r') = Inr pk"
    for r' pk
    using t that by blast
  have r3: "canonicalize (responseUnsigned r') \<noteq> canonicalize (responseUnsigned testResponse)"
    if "resp_timestamp r' \<noteq> resp_timestamp testResponse" for r'
    using t that by blast
  have r4: "verifyTaskResponse testEd (testResponse \<lparr> resp_signature := s \<rparr>)
              = Inr (ed_verify testEd sig (canonicalize (responseUnsigned testResponse))
                       (publicKey testIdentity) = Some True)"
    if "ed_hexToBytes testEd s = Inr sig" for s sig
    using t that by blast
  have k: "ed_hexToBytes testEd (env_from ?e) = Inr ''k''"
    "ed_hexToBytes testEd ''6a'' = Inr ''j''"
    "ed_hexToBytes testEd (resp_from testResponse) = Inr ''k''"
    "ed_hexToBytes testEd ''6b00'' = Inr [CHR ''k'', CHR 0x00]"
    by code_simp+
  have a1: "verifyTaskEnvelope testEd (?e \<lparr> env_taskId := ''id-2'' \<rparr>) = Inr False"
  proof -
    have "\<not> (ed_verify testEd ?sg
                (canonicalize (envelopeUnsigned (?e \<lparr> env_taskId := ''id-2'' \<rparr>))) ''k'' = Some True)"
      by code_simp
    with e2 [of "?e \<lparr> env_taskId := ''id-2'' \<rparr>" "''k''"] k(1) show ?thesis by simp
  qed
  have a2: "verifyTaskEnvelope testEd (?e \<lparr> env_from := ''6a'' \<rparr>) = Inr False"
  proof -
    have "\<not> (ed_verify testEd ?sg
                (canonicalize (envelopeUnsigned (?e \<lparr> env_from := ''6a'' \<rparr>))) ''j'' = Some True)"
      by code_simp
    with e2 [of "?e \<lparr> env_from := ''6a'' \<rparr>" "''j''"] k(2) show ?thesis by simp
  qed
  have a3: "verifyTaskEnvelope testEd (?e \<lparr> env_to := ''peerC'' \<rparr>) = Inr False"
  proof -
    have "\<not> (ed_verify testEd ?sg
                (canonicalize (envelopeUnsigned (?e \<lparr> env_to := ''peerC'' \<rparr>))) ''k'' = Some True)"
      by code_simp
    with e2 [of "?e \<lparr> env_to := ''peerC'' \<rparr>" "''k''"] k(1) show ?thesis by simp
  qed
  have a4: "verifyTaskEnvelope testEd (?e \<lparr> env_tool := ''other'' \<rparr>) = Inr False"
  proof -
    have "\<not> (ed_verify testEd ?sg
                (canonicalize (envelopeUnsigned (?e \<lparr> env_tool := ''other'' \<rparr>))) ''k'' = Some True)"
      by code_simp
    with e2 [of "?e \<lparr> env_tool := ''other'' \<rparr>" "''k''"] k(1) show ?thesis by simp
  qed
  have a5: "verifyTaskEnvelope testEd (?e \<lparr> env_timestamp := 1001 \<rparr>) = Inr False"
  proof -
    have "\<not> (ed_verify testEd ?sg
                (canonicalize (envelopeUnsigned (?e \<lparr> env_timestamp := 1001 \<rparr>))) ''k'' = Some True)"
      by code_simp
    with e2 [of "?e \<lparr> env_timestamp := 1001 \<rparr>" "''k''"] k(1) show ?thesis by simp
  qed
  have a6: "verifyTaskEnvelope testEd
              (?e \<lparr> env_payload := Obj [(''m'', Str ''tampered''), (''n'', Num 1)] \<rparr>) = Inr False"
  proof -
    have "\<not> (ed_verify testEd ?sg
                (canonicalize (envelopeUnsigned
                   (?e \<lparr> env_payload := Obj [(''m'', Str ''tampered''), (''n'', Num 1)] \<rparr>))) ''k''
              = Some True)"
      by code_simp
    with e2 [of "?e \<lparr> env_payload := Obj [(''m'', Str ''tampered''), (''n'', Num 1)] \<rparr>" "''k''"] k(1)
    show ?thesis by simp
  qed
  have a7: "canonicalize (envelopeUnsigned (?e \<lparr> env_to := ''peerC'' \<rparr>))
              \<noteq> canonicalize (envelopeUnsigned ?e)"
    by (rule e3) (simp add: testEnvelope_def createTaskEnvelope_def Let_def)
  have a8: "verifyTaskEnvelope testEd (?e \<lparr> env_signature := ''6b00'' \<rparr>) = Inr False"
  proof -
    have "\<not> (ed_verify testEd [CHR ''k'', CHR 0x00] (canonicalize (envelopeUnsigned ?e))
                (publicKey testIdentity) = Some True)"
      by code_simp
    with e4 [OF k(4)] show ?thesis by simp
  qed
  have b1: "verifyTaskResponse testEd (testResponse \<lparr> resp_taskId := ''t3'' \<rparr>) = Inr False"
  proof -
    have "\<not> (ed_verify testEd ?rg
                (canonicalize (responseUnsigned (testResponse \<lparr> resp_taskId := ''t3'' \<rparr>))) ''k''
              = Some True)"
      by code_simp
    with r2 [of "testResponse \<lparr> resp_taskId := ''t3'' \<rparr>" "''k''"] k(3) show ?thesis by simp
  qed
  have b2: "verifyTaskResponse testEd (testResponse \<lparr> resp_from := ''6a'' \<rparr>) = Inr False"
  proof -
    have "\<not> (ed_verify testEd ?rg
                (canonicalize (responseUnsigned (testResponse \<lparr> resp_from := ''6a'' \<rparr>))) ''j''
              = Some True)"
      by code_simp
    with r2 [of "testResponse \<lparr> resp_from := ''6a'' \<rparr>" "''j''"] k(2) show ?thesis by simp
  qed
  have b3: "verifyTaskResponse testEd (testResponse \<lparr> resp_timestamp := 1501 \<rparr>) = Inr False"
  proof -
    have "\<not> (ed_verify testEd ?rg
                (canonicalize (responseUnsigned (testResponse \<lparr> resp_timestamp := 1501 \<rparr>))) ''k''
              = Some True)"
      by code_simp
    with r2 [of "testResponse \<lparr> resp_timestamp := 1501 \<rparr>" "''k''"] k(3) show ?thesis by simp
  qed
  have b4: "verifyTaskResponse testEd
              (testResponse \<lparr> resp_result := Obj [(''echo'', Str ''tampered'')] \<rparr>) = Inr False"
  proof -
    have "\<not> (ed_verify testEd ?rg
                (canonicalize (responseUnsigned
                   (testResponse \<lparr> resp_result := Obj [(''echo'', Str ''tampered'')] \<rparr>))) ''k''
              = Some True)"
      by code_simp
    with r2 [of "testResponse \<lparr> resp_result := Obj [(''echo'', Str ''tampered'')] \<rparr>" "''k''"] k(3)
    show ?thesis by simp
  qed
  have b5: "canonicalize (responseUnsigned (testResponse \<lparr> resp_timestamp := 1501 \<rparr>))
              \<noteq> canonicalize (responseUnsigned testResponse)"
    by (rule r3) (simp add: testResponse_def createTaskResponse_def Let_def)
  have b6: "verifyTaskResponse testEd (testResponse \<lparr> resp_signature := ''6b00'' \<rparr>) = Inr False"
  proof -
    have "\<not> (ed_verify testEd [CHR ''k'', CHR 0x00] (canonicalize (responseUnsigned testResponse))
                (publicKey testIdentity) = Some True)"
      by code_simp
    with r4 [OF k(4)] show ?thesis by simp
  qed
  show ?thesis
    using signatureVerifies_testEd hexRoundTrip_testEd keyPair_testIdentity
      e1 a1 a2 a3 a4 a5 a6 a7 a8 r1 b1 b2 b3 b4 b5 b6
    by blast
qed

text \<open>
  Changes of a signed field that verification does not notice: the keys of the payload in
  another order, \<open>undefined\<close> for \<open>null\<close> inside an array, a property holding
  \<open>undefined\<close> added to the result; and a signature rewritten in upper case.
\<close>

theorem tampering_undetected_counterexample:
  "verifyTaskEnvelope testEd (testEnvelope ''echo'' (Obj [(''a'', Num 1), (''b'', Arr [Null])])) = Inr True
   \<and> Obj [(''b'', Arr [Null]), (''a'', Num 1)] \<noteq> Obj [(''a'', Num 1), (''b'', Arr [Null])]
   \<and> verifyTaskEnvelope testEd
        ((testEnvelope ''echo'' (Obj [(''a'', Num 1), (''b'', Arr [Null])]))
           \<lparr> env_payload := Obj [(''b'', Arr [Null]), (''a'', Num 1)] \<rparr>) = Inr True
   \<and> \<not> structEq (Obj [(''a'', Num 1), (''b'', Arr [Undefined])]) (Obj [(''a'', Num 1), (''b'', Arr [Null])])
   \<and> verifyTaskEnvelope testEd
        ((testEnvelope ''echo'' (Obj [(''a'', Num 1), (''b'', Arr [Null])]))
           \<lparr> env_payload := Obj [(''a'', Num 1), (''b'', Arr [Undefined])] \<rparr>) = Inr True
   \<and> verifyTaskResponse testEd testResponse = Inr True
   \<and> \<not> structEq (Obj [(''echo'', Str ''hello''), (''extra'', Undefined)]) (resp_result testResponse)
   \<and> verifyTaskResponse testEd
        (testResponse \<lparr> resp_result := Obj [(''echo'', Str ''hello''), (''extra'', Undefined)] \<rparr>)
       = Inr True
   \<and> upperCase (env_signature (testEnvelope ''echo'' (Obj [(''a'', Num 1), (''b'', Arr [Null])])))
       \<noteq> env_signature (testEnvelope ''echo'' (Obj [(''a'', Num 1), (''b'', Arr [Null])]))
   \<and> verifyTaskEnvelope testEd
        ((testEnvelope ''echo'' (Obj [(''a'', Num 1), (''b'', Arr [Null])]))
           \<lparr> env_signature :=
               upperCase (env_signature (testEnvelope ''echo'' (Obj [(''a'', Num 1), (''b'', Arr [Null])]))) \<rparr>)
       = Inr True"
  by code_simp

section \<open>Inbound task requests\<close>

lemma createTaskResponse_fields:
  "resp_taskId (createTaskResponse ed now keys taskId result) = taskId"
  "resp_result (createTaskResponse ed now keys taskId result) = result"
  "resp_timestamp (createTaskResponse ed now keys taskId result) = now"
  "signedBy ed keys (createTaskResponse ed now keys taskId result)"
  by (simp_all add: createTaskResponse_def signedBy_def Let_def responseUnsigned_def)

lemma getTool_getHandler:
  "getHandler registry name = Some handler \<Longrightarrow> getTool registry name \<noteq> None"
  by (auto simp: getHandler_def getTool_def)

lemma validatePayload_notAnObject:
  "notAnObject payload \<Longrightarrow>
     validatePayload tool payload =
       Invalid (if tool_name tool = LLM_MESSAGE_TOOL_NAME
                then ''Payload must be an object with a text field''
                else ''Payload must be an object'')"
  by (simp add: validatePayload_def)

lemma sendResponse_no_invoke: "list_all (\<lambda>ev. \<not> isInvoke ev) (fst (sendResponse tr peerId r))"
  by (simp add: sendResponse_def Let_def)

text \<open>
  Claim C3, as amended. For every inbound task request whose envelope signature verifies
  but whose named tool has no registered handler, the agent sends one message back, a
  response signed with its own key for the request's task id whose result is
  \<open>{error: "unknown tool: <name>"}\<close>, \<open><name>\<close> being the requested tool name;
  no handler is invoked.
\<close>

theorem unknown_tool_reply:
  assumes "verifyTaskEnvelope ed envelope = Inr True"
    and "getHandler (tools agent) (env_tool envelope) = None"
  shows "\<exists>r. fst (handleTask ed tr clock agent peerId envelope)
                 = [Send peerId (canonicalize (wireJson (Response r)))]
              \<and> resp_taskId r = env_taskId envelope
              \<and> resp_result r = Obj [(''error'', Str (''unknown tool: '' @ env_tool envelope))]
              \<and> signedBy ed (identity agent) r"
proof -
  let ?r = "createTaskResponse ed (clock 0) (identity agent) (env_taskId envelope)
              (errorResult (''unknown tool: '' @ env_tool envelope))"
  have "handleTask ed tr clock agent peerId envelope = sendResponse tr peerId ?r"
    using assms by (simp add: handleTask_def)
  then show ?thesis
    by (auto simp: sendResponse_def Let_def createTaskResponse_fields errorResult_def
             intro!: exI [of _ ?r])
qed

theorem unknown_tool_reply_witness:
  "verifyTaskEnvelope testEd (testEnvelope ''nonexistent'' (Obj [(''data'', Num 1)])) = Inr True
   \<and> getHandler (tools testAgent)
        (env_tool (testEnvelope ''nonexistent'' (Obj [(''data'', Num 1)]))) = None
   \<and> (\<exists>r. fst (handleTask testEd testTransport (\<lambda>k. 2000) testAgent ''peerA''
                   (testEnvelope ''nonexistent'' (Obj [(''data'', Num 1)])))
               = [Send ''peerA'' (canonicalize (wireJson (Response r)))]
            \<and> resp_result r = Obj [(''error'', Str ''unknown tool: nonexistent'')])"
proof -
  have ok: "verifyTaskEnvelope testEd (testEnvelope ''nonexistent'' (Obj [(''data'', Num 1)]))
              = Inr True"
    by code_simp
  have none: "getHandler (tools testAgent)
                (env_tool (testEnvelope ''nonexistent'' (Obj [(''data'', Num 1)]))) = None"
    by code_simp
  have name: "env_tool (testEnvelope ''nonexistent'' (Obj [(''data'', Num 1)])) = ''nonexistent''"
    by (simp add: testEnvelope_def createTaskEnvelope_def Let_def)
  show ?thesis
    using ok none unknown_tool_reply [OF ok none, of testTransport "\<lambda>k. 2000" "''peerA''"]
    unfolding name by auto
qed

text \<open>
  The request of the test suite for the tool \<open>nonexistent\<close>: the reply carries
  \<open>unknown tool: nonexistent\<close>, and differs from the reply with the text
  \<open>unknown capability: nonexistent\<close>.
\<close>

theorem unknown_capability_text_counterexample:
  "verifyTaskEnvelope testEd (testEnvelope ''nonexistent'' (Obj [(''data'', Num 1)])) = Inr True
   \<and> getHandler (tools testAgent) ''nonexistent'' = None
   \<and> fst (handleTask testEd testTransport (\<lambda>k. 2000) testAgent ''peerA''
             (testEnvelope ''nonexistent'' (Obj [(''data'', Num 1)])))
       = [Send ''peerA'' (canonicalize (wireJson (Response
            (createTaskResponse testEd 2000 testIdentity ''id-1''
               (Obj [(''error'', Str ''unknown tool: nonexistent'')])))))]
   \<and> fst (handleTask testEd testTransport (\<lambda>k. 2000) testAgent ''peerA''
             (testEnvelope ''nonexistent'' (Obj [(''data'', Num 1)])))
       \<noteq> [Send ''peerA'' (canonicalize (wireJson (Response
            (createTaskResponse testEd 2000 testIdentity ''id-1''
               (Obj [(''error'', Str ''unknown capability: nonexistent'')])))))]"
  by code_simp

text \<open>
  When verification returns false the reply is sent before the registry is read: the
  outcome is the same whatever tools are registered. When \<open>hexToBytes\<close> throws on the
  signature, which happens outside the \<open>try\<close> of \<open>verify\<close>, \<open>handleTask\<close>
  rejects with the thrown value and sends nothing.
\<close>

lemma handleTask_verification_false:
  assumes "verifyTaskEnvelope ed envelope = Inr False"
  shows "(\<exists>r. fst (handleTask ed tr clock agent peerId envelope)
                 = [Send peerId (canonicalize (wireJson (Response r)))]
              \<and> resp_taskId r = env_taskId envelope
              \<and> resp_result r = Obj [(''error'', Str ''invalid signature'')]
              \<and> signedBy ed (identity agent) r)
         \<and> (\<forall>registry. handleTask ed tr clock (agent \<lparr> tools := registry \<rparr>) peerId envelope
                          = handleTask ed tr clock agent peerId envelope)"
proof -
  let ?r = "createTaskResponse ed (clock 0) (identity agent) (env_taskId envelope)
              (errorResult ''invalid signature'')"
  have "handleTask ed tr clock a peerId envelope = sendResponse tr peerId
          (createTaskResponse ed (clock 0) (identity a) (env_taskId envelope)
             (errorResult ''invalid signature''))" for a
    using assms by (simp add: handleTask_def)
  then show ?thesis
    by (auto simp: sendResponse_def Let_def createTaskResponse_fields errorResult_def
             intro!: exI [of _ ?r])
qed

lemma handleTask_signature_not_hex:
  "ed_hexToBytes ed (env_signature envelope) = Inl e
     \<Longrightarrow> handleTask ed tr clock agent peerId envelope = ([], Some e)"
  by (simp add: handleTask_def verifyTaskEnvelope_def verifyHex_def)

text \<open>
  Claim C8. For every inbound task request whose envelope signature fails verification,
  the agent sends back a signed error result with the error text
  \<open>invalid signature\<close> and runs no handler. The code answers so an envelope whose
  payload was changed after signing: the reply is written out in full, its signature
  being, in the instance, the key byte followed by the signed text, in hexadecimal; the
  registered \<open>echo\<close> handler is not invoked. The code does not answer an envelope
  whose \<open>signature\<close> or \<open>from\<close> is not hexadecimal text: verification neither
  succeeds nor returns false, \<open>handleTask\<close> rejects with the error thrown by
  \<open>hexToBytes\<close>, and nothing is sent.
\<close>

theorem invalid_signature_not_answered:
  "verifyTaskEnvelope testEd
     ((testEnvelope ''echo'' (Obj [(''message'', Str ''hello'')]))
        \<lparr> env_payload := Obj [(''message'', Str ''tampered'')] \<rparr>) = Inr False
   \<and> handleTask testEd testTransport (\<lambda>k. 2000) testAgent ''peerA''
        ((testEnvelope ''echo'' (Obj [(''message'', Str ''hello'')]))
           \<lparr> env_payload := Obj [(''message'', Str ''tampered'')] \<rparr>)
       = ([Send ''peerA''
             (''{\"response\":{\"from\":\"6b\",\"result\":{\"error\":\"invalid signature\"},\"signature\":\"''
              @ hexEncode (''k{\"from\":\"6b\",\"result\":{\"error\":\"invalid signature\"},\"taskId\":\"id-1\",\"timestamp\":2000}'')
              @ ''\",\"taskId\":\"id-1\",\"timestamp\":2000},\"type\":\"response\"}'')],
          None)
   \<and> verifyTaskEnvelope testEd
        ((testEnvelope ''echo'' (Obj [(''message'', Str ''hello'')])) \<lparr> env_signature := ''zz'' \<rparr>)
       = Inl (ErrorObject ''hex invalid'')
   \<and> handleTask testEd testTransport (\<lambda>k. 2000) testAgent ''peerA''
        ((testEnvelope ''echo'' (Obj [(''message'', Str ''hello'')])) \<lparr> env_signature := ''zz'' \<rparr>)
       = ([], Some (ErrorObject ''hex invalid''))
   \<and> handleTask testEd testTransport (\<lambda>k. 2000) testAgent ''peerA''
        ((testEnvelope ''echo'' (Obj [(''message'', Str ''hello'')])) \<lparr> env_from := ''peerA'' \<rparr>)
       = ([], Some (ErrorObject ''hex invalid''))"
  by code_simp

text \<open>
  Claim C10. For every tool other than \<open>quokkamesh/llm-message\<close> and every payload
  that is null, an array, or not of type object, \<open>validatePayload\<close> returns invalid
  with the error \<open>Payload must be an object\<close>, whether or not the tool declares a
  parameters schema; and \<open>handleTask\<close> never invokes a handler on such a payload.
\<close>

theorem non_object_payload_rejected:
  "(tool_name tool \<noteq> LLM_MESSAGE_TOOL_NAME \<and> notAnObject payload
      \<longrightarrow> validatePayload tool payload = Invalid ''Payload must be an object'')
   \<and> (notAnObject (env_payload envelope)
      \<longrightarrow> list_all (\<lambda>ev. \<not> isInvoke ev) (fst (handleTask ed tr clock agent peerId envelope)))"
proof (intro conjI impI)
  assume "tool_name tool \<noteq> LLM_MESSAGE_TOOL_NAME \<and> notAnObject payload"
  then show "validatePayload tool payload = Invalid ''Payload must be an object''"
    by (simp add: validatePayload_notAnObject)
next
  assume bad: "notAnObject (env_payload envelope)"
  show "list_all (\<lambda>ev. \<not> isInvoke ev) (fst (handleTask ed tr clock agent peerId envelope))"
  proof (cases "verifyTaskEnvelope ed envelope")
    case (Inl e)
    then show ?thesis by (simp add: handleTask_def)
  next
    case (Inr ok)
    show ?thesis
    proof (cases ok)
      case False
      with Inr show ?thesis by (simp add: handleTask_def sendResponse_no_invoke)
    next
      case True
      show ?thesis
      proof (cases "getHandler (tools agent) (env_tool envelope)")
        case None
        with Inr True show ?thesis by (simp add: handleTask_def sendResponse_no_invoke)
      next
        case (Some handler)
        then obtain tool where t: "getTool (tools agent) (env_tool envelope) = Some tool"
          using getTool_getHandler by fastforce
        with Inr True Some bad show ?thesis
          by (simp add: handleTask_def validatePayload_notAnObject sendResponse_no_invoke)
      qed
    qed
  qed
qed

theorem non_object_payload_rejected_witness:
  "tool_name echoTool \<noteq> LLM_MESSAGE_TOOL_NAME \<and> notAnObject (Arr [Num 1])
   \<and> validatePayload echoTool (Arr [Num 1]) = Invalid ''Payload must be an object''
   \<and> notAnObject (env_payload (testEnvelope ''echo'' (Str ''hello'')))
   \<and> list_all (\<lambda>ev. \<not> isInvoke ev)
        (fst (handleTask testEd testTransport (\<lambda>k. 2000) testAgent ''peerA''
                (testEnvelope ''echo'' (Str ''hello''))))"
proof -
  have h1: "tool_name echoTool \<noteq> LLM_MESSAGE_TOOL_NAME \<and> notAnObject (Arr [Num 1])"
    by (simp add: echoTool_def LLM_MESSAGE_TOOL_NAME_def notAnObject_def)
  have h2: "notAnObject (env_payload (testEnvelope ''echo'' (Str ''hello'')))"
    by (simp add: testEnvelope_def createTaskEnvelope_def Let_def notAnObject_def)
  show ?thesis
    using h1 h2
      non_object_payload_rejected [of echoTool "Arr [Num 1]" "testEnvelope ''echo'' (Str ''hello'')"
        testEd testTransport "\<lambda>k. 2000" testAgent "''peerA''"]
    by blast
qed

section \<open>Inbound task results\<close>

lemma map_of_mapDelete: "map_of (mapDelete k m) k = None"
  by (induction m) (auto simp: mapDelete_def)

text \<open>
  Claim C9, as amended. For every inbound task result: if no pending request exists under
  its task id, it is discarded with no state change and no effect. Otherwise the entry is
  removed from the table and the deadline timer is cancelled, the signature is verified,
  and the caller's promise is resolved with the result when verification returns true, or
  rejected with the error \<open>Invalid task response signature\<close> when it returns false.
\<close>

theorem handleResponse_spec:
  "(map_of (pending agent) (resp_taskId response) = None
      \<longrightarrow> handleResponse ed agent response = (agent, [], None))
   \<and> (map_of (pending agent) (resp_taskId response) = Some p
      \<longrightarrow> fst (handleResponse ed agent response)
            = agent \<lparr> pending := mapDelete (resp_taskId response) (pending agent) \<rparr>
          \<and> map_of (pending (fst (handleResponse ed agent response))) (resp_taskId response) = None
          \<and> hd (fst (snd (handleResponse ed agent response))) = ClearTimeout (pr_timer p)
          \<and> (verifyTaskResponse ed response = Inr True
                \<longrightarrow> snd (handleResponse ed agent response)
                      = ([ClearTimeout (pr_timer p), Resolve (pr_promise p) response], None))
          \<and> (verifyTaskResponse ed response = Inr False
                \<longrightarrow> snd (handleResponse ed agent response)
                      = ([ClearTimeout (pr_timer p),
                          Reject (pr_promise p) (ErrorObject ''Invalid task response signature'')],
                         None)))"
  by (auto simp: handleResponse_def Let_def map_of_mapDelete split: sum.splits bool.splits)

theorem handleResponse_spec_witness:
  "map_of (pending testAgent) (resp_taskId (testResponse \<lparr> resp_taskId := ''t9'' \<rparr>)) = None
   \<and> handleResponse testEd testAgent (testResponse \<lparr> resp_taskId := ''t9'' \<rparr>) = (testAgent, [], None)
   \<and> map_of (pending testAgent) (resp_taskId testResponse) = Some \<lparr> pr_promise = 2, pr_timer = 12 \<rparr>
   \<and> verifyTaskResponse testEd testResponse = Inr True
   \<and> snd (handleResponse testEd testAgent testResponse)
       = ([ClearTimeout 12, Resolve 2 testResponse], None)
   \<and> map_of (pending (fst (handleResponse testEd testAgent testResponse))) ''t2'' = None
   \<and> verifyTaskResponse testEd (testResponse \<lparr> resp_result := Null \<rparr>) = Inr False
   \<and> snd (handleResponse testEd testAgent (testResponse \<lparr> resp_result := Null \<rparr>))
       = ([ClearTimeout 12, Reject 2 (ErrorObject ''Invalid task response signature'')], None)"
proof -
  have id: "resp_taskId testResponse = ''t2''"
    "resp_taskId (testResponse \<lparr> resp_result := Null \<rparr>) = ''t2''"
    by (simp_all add: testResponse_def createTaskResponse_def Let_def)
  have absent:
    "map_of (pending testAgent) (resp_taskId (testResponse \<lparr> resp_taskId := ''t9'' \<rparr>)) = None"
    by (simp add: testAgent_def registerTool_def)
  have present: "map_of (pending testAgent) ''t2'' = Some \<lparr> pr_promise = 2, pr_timer = 12 \<rparr>"
    by (simp add: testAgent_def registerTool_def)
  have good: "verifyTaskResponse testEd testResponse = Inr True" by code_simp
  have bad: "verifyTaskResponse testEd (testResponse \<lparr> resp_result := Null \<rparr>) = Inr False"
    by code_simp
  note a = handleResponse_spec [where agent = testAgent and ed = testEd
             and response = "testResponse \<lparr> resp_taskId := ''t9'' \<rparr>"]
  note b = handleResponse_spec [where agent = testAgent and ed = testEd
             and response = testResponse and p = "\<lparr> pr_promise = 2, pr_timer = 12 \<rparr>"]
  note c = handleResponse_spec [where agent = testAgent and ed = testEd
             and response = "testResponse \<lparr> resp_result := Null \<rparr>"
             and p = "\<lparr> pr_promise = 2, pr_timer = 12 \<rparr>"]
  show ?thesis
    using absent present good bad a b c unfolding id by (simp add: map_of_mapDelete)
qed

text \<open>
  A result changed after signing, for a pending request: the promise is rejected with the
  error \<open>Invalid task response signature\<close>, which is not an error with the text
  \<open>invalid signature\<close>.
\<close>

theorem handleResponse_text_counterexample:
  "map_of (pending testAgent) (resp_taskId (testResponse \<lparr> resp_result := Null \<rparr>))
     = Some \<lparr> pr_promise = 2, pr_timer = 12 \<rparr>
   \<and> verifyTaskResponse testEd (testResponse \<lparr> resp_result := Null \<rparr>) = Inr False
   \<and> snd (handleResponse testEd testAgent (testResponse \<lparr> resp_result := Null \<rparr>))
       = ([ClearTimeout 12, Reject 2 (ErrorObject ''Invalid task response signature'')], None)
   \<and> snd (handleResponse testEd testAgent (testResponse \<lparr> resp_result := Null \<rparr>))
       \<noteq> ([ClearTimeout 12, Reject 2 (ErrorObject ''invalid signature'')], None)"
  by code_simp

text \<open>
  A result whose \<open>signature\<close> is not hexadecimal text, for a pending request: the
  entry is removed and the timer cancelled, then \<open>hexToBytes\<close> throws, and the promise
  is neither resolved nor rejected.
\<close>

lemma handleResponse_signature_not_hex:
  "pending (fst (handleResponse testEd testAgent (testResponse \<lparr> resp_signature := ''zz'' \<rparr>)))
     = [(''t1'', \<lparr> pr_promise = 1, pr_timer = 11 \<rparr>)]
   \<and> snd (handleResponse testEd testAgent (testResponse \<lparr> resp_signature := ''zz'' \<rparr>))
       = ([ClearTimeout 12], Some (ErrorObject ''hex invalid''))"
  by code_simp

section \<open>Stopping an agent\<close>

lemma rejectPending_pending:
  "pending (fst (rejectPending entries agent))
     = filter (\<lambda>kv. fst kv \<notin> set (map fst entries)) (pending agent)"
  by (induction entries agent rule: rejectPending.induct)
     (auto simp: mapDelete_def Let_def split: prod.splits intro: filter_cong)

lemma rejectPending_events:
  "snd (rejectPending entries agent)
     = concat (map (\<lambda>entry. [ClearTimeout (pr_timer (snd entry)),
                              Reject (pr_promise (snd entry)) (ErrorObject ''Agent stopped'')])
                   entries)"
  by (induction entries agent rule: rejectPending.induct)
     (auto simp: Let_def split: prod.splits)

text \<open>
  Claim C4, as amended. When an agent is stopped while requests are outstanding and the
  transport's \<open>stop\<close> completes, the transport is stopped first; after that, for every
  pending request in table order, its timer is cancelled and its promise is rejected with
  the error \<open>Agent stopped\<close>; and after \<open>stop\<close> no pending request remains in the
  table.
\<close>

theorem stop_spec:
  assumes "tr_stop tr = None"
  shows "pending (fst (stop tr agent)) = []
       \<and> fst (snd (stop tr agent))
           = TransportStop #
             concat (map (\<lambda>entry. [ClearTimeout (pr_timer (snd entry)),
                                    Reject (pr_promise (snd entry)) (ErrorObject ''Agent stopped'')])
                         (pending agent))
       \<and> snd (snd (stop tr agent)) = None"
proof -
  obtain agent' events where r: "rejectPending (pending agent) agent = (agent', events)"
    by (cases "rejectPending (pending agent) agent")
  have "pending agent' = []"
    using rejectPending_pending [of "pending agent" agent] r by (simp add: filter_empty_conv)
  moreover have "events = concat (map (\<lambda>entry. [ClearTimeout (pr_timer (snd entry)),
                                    Reject (pr_promise (snd entry)) (ErrorObject ''Agent stopped'')])
                         (pending agent))"
    using rejectPending_events [of "pending agent" agent] r by simp
  ultimately show ?thesis using assms r by (simp add: stop_def)
qed

theorem stop_spec_witness:
  "tr_stop testTransport = None
   \<and> pending (fst (stop testTransport testAgent)) = []
   \<and> fst (snd (stop testTransport testAgent))
       = [TransportStop,
          ClearTimeout 11, Reject 1 (ErrorObject ''Agent stopped''),
          ClearTimeout 12, Reject 2 (ErrorObject ''Agent stopped'')]"
proof -
  have h: "tr_stop testTransport = None" by (simp add: testTransport_def)
  have p: "pending testAgent = [(''t1'', \<lparr> pr_promise = 1, pr_timer = 11 \<rparr>),
                                (''t2'', \<lparr> pr_promise = 2, pr_timer = 12 \<rparr>)]"
    by (simp add: testAgent_def registerTool_def)
  show ?thesis using h stop_spec [OF h, of testAgent] unfolding p by simp
qed

text \<open>
  An agent with two pending requests: the transport is stopped before the first request
  is rejected, not after the last.
\<close>

theorem stop_order_counterexample:
  "pending testAgent \<noteq> []
   \<and> fst (snd (stop testTransport testAgent))
       = [TransportStop,
          ClearTimeout 11, Reject 1 (ErrorObject ''Agent stopped''),
          ClearTimeout 12, Reject 2 (ErrorObject ''Agent stopped'')]
   \<and> fst (snd (stop testTransport testAgent))
       \<noteq> [ClearTimeout 11, Reject 1 (ErrorObject ''Agent stopped''),
          ClearTimeout 12, Reject 2 (ErrorObject ''Agent stopped''),
          TransportStop]"
  by (simp add: stop_def testTransport_def testAgent_def registerTool_def Let_def mapDelete_def)

section \<open>Wire messages\<close>

lemma sendResponse_shape:
  "\<forall>ev \<in> set (fst (sendResponse tr peerId r)). \<forall>p b. ev = Send p b \<longrightarrow>
     (\<exists>response. b = canonicalize (Obj [(''type'', Str ''response''),
                                           (''response'', responseJson response)]))"
  by (auto simp: sendResponse_def Let_def)

lemma executeHandler_shape:
  "\<forall>ev \<in> set (fst (executeHandler ed tr clock agent peerId envelope handler)). \<forall>p b.
     ev = Send p b \<longrightarrow>
     (\<exists>response. b = canonicalize (Obj [(''type'', Str ''response''),
                                           (''response'', responseJson response)]))"
  using sendResponse_shape
  by (auto simp: executeHandler_def Let_def sendResponse_def
           split: outcome.splits option.splits prod.splits)

lemma handleTask_shape:
  "\<forall>ev \<in> set (fst (handleTask ed tr clock agent peerId envelope)). \<forall>p b.
     ev = Send p b \<longrightarrow>
     (\<exists>response. b = canonicalize (Obj [(''type'', Str ''response''),
                                           (''response'', responseJson response)]))"
  unfolding handleTask_def
  using sendResponse_shape executeHandler_shape
  by (simp split: sum.splits bool.splits option.splits validation.splits)

text \<open>
  Claim C5, as amended. Every message the agent hands to the transport is the canonical
  encoding of one of three shapes, tagged by a field named \<open>type\<close>:
  \<open>{type: "task", envelope: TaskEnvelope}\<close> (sent by \<open>request\<close>),
  \<open>{type: "response", response: TaskResponse}\<close> (sent by \<open>handleTask\<close>) and
  \<open>{type: "cert-exchange", cert: DelegationCert}\<close> (sent by \<open>exchangeCert\<close>).
\<close>

theorem wire_message_shapes:
  "(\<forall>ev \<in> set (snd (request ed uuid now promise timer agent peerId tool payload)). \<forall>p b.
      ev = Send p b \<longrightarrow>
      (\<exists>envelope. b = canonicalize (Obj [(''type'', Str ''task''),
                                            (''envelope'', envelopeJson envelope)])))
   \<and> (\<forall>ev \<in> set (fst (handleTask ed tr clock agent peerId' envelope')). \<forall>p b.
      ev = Send p b \<longrightarrow>
      (\<exists>response. b = canonicalize (Obj [(''type'', Str ''response''),
                                            (''response'', responseJson response)])))
   \<and> (\<forall>ev \<in> set (fst (exchangeCert tr agent peerId'')). \<forall>p b.
      ev = Send p b \<longrightarrow>
      (\<exists>cert. b = canonicalize (Obj [(''type'', Str ''cert-exchange''),
                                        (''cert'', certJson cert)])))"
proof (intro conjI)
  show "\<forall>ev \<in> set (snd (request ed uuid now promise timer agent peerId tool payload)). \<forall>p b.
      ev = Send p b \<longrightarrow>
      (\<exists>envelope. b = canonicalize (Obj [(''type'', Str ''task''),
                                            (''envelope'', envelopeJson envelope)]))"
    by (auto simp: request_def Let_def)
  show "\<forall>ev \<in> set (fst (handleTask ed tr clock agent peerId' envelope')). \<forall>p b.
      ev = Send p b \<longrightarrow>
      (\<exists>response. b = canonicalize (Obj [(''type'', Str ''response''),
                                            (''response'', responseJson response)]))"
    by (rule handleTask_shape)
  show "\<forall>ev \<in> set (fst (exchangeCert tr agent peerId'')). \<forall>p b.
      ev = Send p b \<longrightarrow>
      (\<exists>cert. b = canonicalize (Obj [(''type'', Str ''cert-exchange''),
                                        (''cert'', certJson cert)]))"
    by (auto simp: exchangeCert_def Let_def split: option.splits)
qed

theorem wire_message_shapes_witness:
  "Send ''peerB'' (canonicalize (wireJson (Task (testEnvelope ''echo'' Null))))
     \<in> set (snd (request testEd ''id-1'' 1000 1 11
                  (testAgent \<lparr> delegation := Some smallCert \<rparr>) ''peerB'' ''echo'' Null))
   \<and> (\<exists>envelope. canonicalize (wireJson (Task (testEnvelope ''echo'' Null)))
         = canonicalize (Obj [(''type'', Str ''task''), (''envelope'', envelopeJson envelope)]))
   \<and> Send ''peerA'' (canonicalize (wireJson (Response
          (createTaskResponse testEd 2000 testIdentity ''t'' (errorResult ''invalid signature'')))))
     \<in> set (fst (handleTask testEd testTransport (\<lambda>k. 2000)
                  (testAgent \<lparr> delegation := Some smallCert \<rparr>) ''peerA'' smallEnvelope))
   \<and> (\<exists>response. canonicalize (wireJson (Response
          (createTaskResponse testEd 2000 testIdentity ''t'' (errorResult ''invalid signature''))))
         = canonicalize (Obj [(''type'', Str ''response''), (''response'', responseJson response)]))
   \<and> Send ''peerB'' (canonicalize (wireJson (CertExchange smallCert)))
     \<in> set (fst (exchangeCert testTransport (testAgent \<lparr> delegation := Some smallCert \<rparr>) ''peerB''))
   \<and> (\<exists>cert. canonicalize (wireJson (CertExchange smallCert))
         = canonicalize (Obj [(''type'', Str ''cert-exchange''), (''cert'', certJson cert)]))"
proof -
  note shapes = wire_message_shapes [where ed = testEd and uuid = "''id-1''" and now = 1000
                  and promise = 1 and timer = 11
                  and agent = "testAgent \<lparr> delegation := Some smallCert \<rparr>"
                  and peerId = "''peerB''" and tool = "''echo''" and payload = Null
                  and tr = testTransport and clock = "\<lambda>k. 2000" and peerId' = "''peerA''"
                  and envelope' = smallEnvelope and peerId'' = "''peerB''"]
  have m1: "Send ''peerB'' (canonicalize (wireJson (Task (testEnvelope ''echo'' Null))))
     \<in> set (snd (request testEd ''id-1'' 1000 1 11
                  (testAgent \<lparr> delegation := Some smallCert \<rparr>) ''peerB'' ''echo'' Null))"
    by (simp add: request_def Let_def testEnvelope_def testAgent_def registerTool_def)
  have bad: "verifyTaskEnvelope testEd smallEnvelope = Inr False" by code_simp
  have who: "identity (testAgent \<lparr> delegation := Some smallCert \<rparr>) = testIdentity"
    "env_taskId smallEnvelope = ''t''"
    by (simp_all add: testAgent_def registerTool_def smallEnvelope_def)
  have m2: "Send ''peerA'' (canonicalize (wireJson (Response
          (createTaskResponse testEd 2000 testIdentity ''t'' (errorResult ''invalid signature'')))))
     \<in> set (fst (handleTask testEd testTransport (\<lambda>k. 2000)
                  (testAgent \<lparr> delegation := Some smallCert \<rparr>) ''peerA'' smallEnvelope))"
    using bad by (simp add: handleTask_def sendResponse_def Let_def who)
  have m3: "Send ''peerB'' (canonicalize (wireJson (CertExchange smallCert)))
     \<in> set (fst (exchangeCert testTransport (testAgent \<lparr> delegation := Some smallCert \<rparr>) ''peerB''))"
    by (simp add: exchangeCert_def Let_def)
  show ?thesis
  proof (intro conjI)
    show "Send ''peerB'' (canonicalize (wireJson (Task (testEnvelope ''echo'' Null))))
     \<in> set (snd (request testEd ''id-1'' 1000 1 11
                  (testAgent \<lparr> delegation := Some smallCert \<rparr>) ''peerB'' ''echo'' Null))"
      by (rule m1)
    show "\<exists>envelope. canonicalize (wireJson (Task (testEnvelope ''echo'' Null)))
         = canonicalize (Obj [(''type'', Str ''task''), (''envelope'', envelopeJson envelope)])"
      using shapes m1 by blast
    show "Send ''peerA'' (canonicalize (wireJson (Response
          (createTaskResponse testEd 2000 testIdentity ''t'' (errorResult ''invalid signature'')))))
     \<in> set (fst (handleTask testEd testTransport (\<lambda>k. 2000)
                  (testAgent \<lparr> delegation := Some smallCert \<rparr>) ''peerA'' smallEnvelope))"
      by (rule m2)
    show "\<exists>response. canonicalize (wireJson (Response
          (createTaskResponse testEd 2000 testIdentity ''t'' (errorResult ''invalid signature''))))
         = canonicalize (Obj [(''type'', Str ''response''), (''response'', responseJson response)])"
      using shapes m2 by blast
    show "Send ''peerB'' (canonicalize (wireJson (CertExchange smallCert)))
     \<in> set (fst (exchangeCert testTransport (testAgent \<lparr> delegation := Some smallCert \<rparr>) ''peerB''))"
      by (rule m3)
    show "\<exists>cert. canonicalize (wireJson (CertExchange smallCert))
         = canonicalize (Obj [(''type'', Str ''cert-exchange''), (''cert'', certJson cert)])"
      using shapes m3 by blast
  qed
qed

text \<open>
  The text of the three kinds of message, and a certificate exchange as the agent sends
  it: the tag is the field \<open>type\<close>, with the values \<open>task\<close>, \<open>response\<close> and
  \<open>cert-exchange\<close>; none is the encoding of the shape tagged \<open>kind\<close>.
\<close>

theorem wire_tag_counterexample:
  "canonicalJson (wireJson (Task smallEnvelope))
     = ''{\"envelope\":{\"from\":\"6b\",\"payload\":null,\"signature\":\"00\",\"taskId\":\"t\",\"timestamp\":1,\"to\":\"p\",\"tool\":\"echo\"},\"type\":\"task\"}''
   \<and> canonicalJson (wireJson (Response smallResponse))
     = ''{\"response\":{\"from\":\"6b\",\"result\":null,\"signature\":\"00\",\"taskId\":\"t\",\"timestamp\":1},\"type\":\"response\"}''
   \<and> canonicalJson (wireJson (CertExchange smallCert))
     = ''{\"cert\":{\"agent\":\"61\",\"expiresAt\":2,\"issuedAt\":1,\"owner\":\"6b\",\"scope\":[\"*\"],\"signature\":\"00\"},\"type\":\"cert-exchange\"}''
   \<and> fst (exchangeCert testTransport (testAgent \<lparr> delegation := Some smallCert \<rparr>) ''peerB'')
       = [Send ''peerB'' (canonicalize (wireJson (CertExchange smallCert)))]
   \<and> canonicalize (wireJson (Task smallEnvelope))
       \<noteq> canonicalize (Obj [(''kind'', Str ''task''), (''envelope'', envelopeJson smallEnvelope)])
   \<and> canonicalize (wireJson (Response smallResponse))
       \<noteq> canonicalize (Obj [(''kind'', Str ''result''), (''result'', responseJson smallResponse)])
   \<and> canonicalize (wireJson (CertExchange smallCert))
       \<noteq> canonicalize (Obj [(''kind'', Str ''certificate''), (''cert'', certJson smallCert)])"
  by code_simp

section \<open>Delegation certificates\<close>

text \<open>
  For a certificate that has not expired and whose \<open>signature\<close> and \<open>owner\<close> are
  hexadecimal text, \<open>verifyDelegationCert\<close> returns what the library's \<open>verify\<close>
  returns for the decoded signature, the canonical encoding of the other fields and the
  decoded owner key; when \<open>hexToBytes\<close> throws on the signature, so does
  \<open>verifyDelegationCert\<close>.
\<close>

lemma verifyDelegationCert_decoded:
  "now < cert_expiresAt cert \<Longrightarrow> ed_hexToBytes ed (cert_signature cert) = Inr sig
     \<Longrightarrow> ed_hexToBytes ed (cert_owner cert) = Inr pk
     \<Longrightarrow> verifyDelegationCert ed now cert
           = Inr (ed_verify ed sig (canonicalize (certUnsigned cert)) pk = Some True)"
  by (auto simp: verifyDelegationCert_def verifyHex_def verify_def split: option.splits)

lemma verifyDelegationCert_signature_not_hex:
  "now < cert_expiresAt cert \<Longrightarrow> ed_hexToBytes ed (cert_signature cert) = Inl e
     \<Longrightarrow> verifyDelegationCert ed now cert = Inl e"
  by (simp add: verifyDelegationCert_def verifyHex_def)

text \<open>
  Claim C6. For every certificate, if \<open>expiresAt \<le> now\<close> then
  \<open>verifyDelegationCert\<close> returns false whatever the signature; otherwise it returns
  the result of verifying \<open>signature\<close> against the \<open>owner\<close> key over the canonical
  encoding of all fields except \<open>signature\<close>. The first half holds of the code for
  every certificate. For the second half, the certificate of the instance is signed over
  the text of its five other fields, verifies before its expiry and not from then on, and
  no longer verifies once any of the five fields or the signature is changed; but for an
  unexpired certificate whose \<open>signature\<close> or \<open>owner\<close> is not hexadecimal text the
  code returns no result: it throws.
\<close>

theorem verifyDelegationCert_throws:
  "verifyDelegationCert ed (cert_expiresAt cert + int n) cert = Inr False
   \<and> canonicalJson (certUnsigned (testCert ''a''))
       = ''{\"agent\":\"61\",\"expiresAt\":61000,\"issuedAt\":1000,\"owner\":\"6b\",\"scope\":[\"*\"]}''
   \<and> cert_signature (testCert ''a'')
       = hexEncode (''k{\"agent\":\"61\",\"expiresAt\":61000,\"issuedAt\":1000,\"owner\":\"6b\",\"scope\":[\"*\"]}'')
   \<and> verifyDelegationCert testEd 60999 (testCert ''a'') = Inr True
   \<and> verifyDelegationCert testEd 61000 (testCert ''a'') = Inr False
   \<and> verifyDelegationCert testEd 2000 ((testCert ''a'') \<lparr> cert_owner := ''6a'' \<rparr>) = Inr False
   \<and> verifyDelegationCert testEd 2000 ((testCert ''a'') \<lparr> cert_agent := ''62'' \<rparr>) = Inr False
   \<and> verifyDelegationCert testEd 2000 ((testCert ''a'') \<lparr> cert_scope := [] \<rparr>) = Inr False
   \<and> verifyDelegationCert testEd 2000 ((testCert ''a'') \<lparr> cert_issuedAt := 999 \<rparr>) = Inr False
   \<and> verifyDelegationCert testEd 2000 ((testCert ''a'') \<lparr> cert_expiresAt := 61001 \<rparr>) = Inr False
   \<and> verifyDelegationCert testEd 2000 ((testCert ''a'') \<lparr> cert_signature := ''6b00'' \<rparr>) = Inr False
   \<and> verifyDelegationCert testEd 2000 ((testCert ''a'') \<lparr> cert_signature := ''zz'' \<rparr>)
       = Inl (ErrorObject ''hex invalid'')
   \<and> verifyDelegationCert testEd 2000 ((testCert ''a'') \<lparr> cert_owner := ''owner'' \<rparr>)
       = Inl (ErrorObject ''hex invalid'')"
proof (intro conjI)
  show "verifyDelegationCert ed (cert_expiresAt cert + int n) cert = Inr False"
    by (simp add: verifyDelegationCert_def)
qed code_simp+

lemma isFleetSibling_true_iff:
  "isFleetSibling ed nowA nowB certA certB = Inr True \<longleftrightarrow>
     verifyDelegationCert ed nowA certA = Inr True
     \<and> verifyDelegationCert ed nowB certB = Inr True
     \<and> cert_owner certA = cert_owner certB"
  by (auto simp: isFleetSibling_def split: sum.splits bool.splits)

text \<open>
  Claim C7. For every pair of certificates, \<open>isFleetSibling\<close> returns true if and only
  if both certificates verify and have the same owner; consequently it is symmetric: the
  calls on \<open>(certA, certB)\<close> and on \<open>(certB, certA)\<close> give the same result. The
  equivalence holds of the code, and so does the symmetry of the answer true, taken at
  one instant: two certificates of one owner are siblings in both orders, and a
  certificate of another owner or a tampered one is a sibling in neither. The two calls
  do not always give the same result: for a certificate that does not verify and one
  whose \<open>signature\<close> is not hexadecimal text, the call returns false in one order and
  throws in the other.
\<close>

theorem isFleetSibling_not_symmetric:
  "(isFleetSibling ed nowA nowB certA certB = Inr True \<longleftrightarrow>
      verifyDelegationCert ed nowA certA = Inr True
      \<and> verifyDelegationCert ed nowB certB = Inr True
      \<and> cert_owner certA = cert_owner certB)
   \<and> ((isFleetSibling ed now now certA certB = Inr True)
        = (isFleetSibling ed now now certB certA = Inr True))
   \<and> isFleetSibling testEd 2000 2000 (testCert ''a'') (testCert ''b'') = Inr True
   \<and> isFleetSibling testEd 2000 2000 (testCert ''b'') (testCert ''a'') = Inr True
   \<and> verifyDelegationCert testEd 2000
        (createDelegationCert testEd 1000 otherIdentity ''b'' [''*''] 60000) = Inr True
   \<and> isFleetSibling testEd 2000 2000 (testCert ''a'')
        (createDelegationCert testEd 1000 otherIdentity ''b'' [''*''] 60000) = Inr False
   \<and> isFleetSibling testEd 2000 2000
        (createDelegationCert testEd 1000 otherIdentity ''b'' [''*''] 60000) (testCert ''a'')
       = Inr False
   \<and> isFleetSibling testEd 2000 2000 (testCert ''a'')
        ((testCert ''b'') \<lparr> cert_agent := ''63'' \<rparr>) = Inr False
   \<and> isFleetSibling testEd 2000 2000 ((testCert ''b'') \<lparr> cert_agent := ''63'' \<rparr>)
        (testCert ''a'') = Inr False
   \<and> isFleetSibling testEd 2000 2000 ((testCert ''a'') \<lparr> cert_agent := ''62'' \<rparr>)
        ((testCert ''b'') \<lparr> cert_signature := ''zz'' \<rparr>) = Inr False
   \<and> isFleetSibling testEd 2000 2000 ((testCert ''b'') \<lparr> cert_signature := ''zz'' \<rparr>)
        ((testCert ''a'') \<lparr> cert_agent := ''62'' \<rparr>) = Inl (ErrorObject ''hex invalid'')"
proof (intro conjI)
  show "isFleetSibling ed nowA nowB certA certB = Inr True \<longleftrightarrow>
      verifyDelegationCert ed nowA certA = Inr True
      \<and> verifyDelegationCert ed nowB certB = Inr True
      \<and> cert_owner certA = cert_owner certB"
    by (rule isFleetSibling_true_iff)
  show "(isFleetSibling ed now now certA certB = Inr True)
        = (isFleetSibling ed now now certB certA = Inr True)"
    unfolding isFleetSibling_true_iff by auto
qed code_simp+

end
